theory Spec2Isabelle
  imports Main "HOL-Library.Word" "HOL-Library.Sublist"
begin

section \<open>InnoDB performance-schema data-lock iterators (handler/p\_s.cc)\<close>

text \<open>
  A shallow embedding of \<^verbatim>\<open>storage/innobase/handler/p_s.cc\<close>: the restartable scan
  state \<^verbatim>\<open>Innodb_trx_scan_state\<close>, the lock-id printer and scanner, and the two
  iterators \<^verbatim>\<open>Innodb_data_lock_iterator\<close> and \<^verbatim>\<open>Innodb_data_lock_wait_iterator\<close>.

  Integer types are those of an LP64 build: \<^verbatim>\<open>trx_id_t\<close>, \<^verbatim>\<open>ulint\<close> and
  \<^verbatim>\<open>ulonglong\<close> are 64-bit unsigned words, \<^verbatim>\<open>space_id_t\<close> and \<^verbatim>\<open>page_no_t\<close> are 32-bit
  unsigned words, \<^verbatim>\<open>long\<close> is a 64-bit signed integer. \<^verbatim>\<open>size_t found\<close> counts rows and
  is a \<open>nat\<close> (it cannot reach \<open>2 ^ 64\<close> rows).
\<close>

type_synonym trx_id_t = "64 word"
type_synonym ulint = "64 word"
type_synonym ulonglong = "64 word"
type_synonym space_id_t = "32 word"
type_synonym page_no_t = "32 word"

text \<open>\<^verbatim>\<open>ut_error\<close> and a failed \<^verbatim>\<open>ut_a\<close> abort the server: a fatal error, not a return value.\<close>

datatype error = UT_ERROR

subsection \<open>The scan state\<close>

datatype scan_pass =
    INIT_SCANNING
  | SCANNING_RW_TRX_LIST
  | SCANNING_MYSQL_TRX_LIST
  | DONE_SCANNING

record Innodb_trx_scan_state =
  m_scan_pass :: scan_pass
  m_start_trx_id_range :: trx_id_t
  m_end_trx_id_range :: trx_id_t
  m_next_trx_id_range :: trx_id_t

definition SCAN_RANGE :: trx_id_t where
  "SCAN_RANGE = 256"

text \<open>
  The constructor. \<^verbatim>\<open>TRX_ID_MAX\<close> is a macro of \<^verbatim>\<open>trx0types.h\<close>, outside
  \<^verbatim>\<open>p_s.cc\<close>: every function that reads it takes its value as the parameter
  \<open>TRX_ID_MAX\<close>.
\<close>

definition Innodb_trx_scan_state :: "trx_id_t \<Rightarrow> Innodb_trx_scan_state" where
  "Innodb_trx_scan_state TRX_ID_MAX =
     \<lparr> m_scan_pass = INIT_SCANNING,
       m_start_trx_id_range = 0,
       m_end_trx_id_range = SCAN_RANGE,
       m_next_trx_id_range = TRX_ID_MAX \<rparr>"

definition get_pass :: "Innodb_trx_scan_state \<Rightarrow> scan_pass" where
  "get_pass s = m_scan_pass s"

text \<open>
  \<^verbatim>\<open>prepare_next_scan\<close>: unsigned 64-bit arithmetic, so \<open>-\<close>, \<open>mod\<close> and \<open>+\<close> are those
  of \<open>64 word\<close> and the addition wraps. The \<^verbatim>\<open>DONE_SCANNING\<close> case is \<^verbatim>\<open>ut_error\<close>.
\<close>

definition prepare_next_scan ::
  "trx_id_t \<Rightarrow> Innodb_trx_scan_state \<Rightarrow> error + Innodb_trx_scan_state" where
  "prepare_next_scan TRX_ID_MAX s =
     (if m_next_trx_id_range s \<noteq> TRX_ID_MAX then
        (let start = m_next_trx_id_range s - (m_next_trx_id_range s mod SCAN_RANGE)
         in Inr (s\<lparr> m_start_trx_id_range := start,
                    m_end_trx_id_range := start + SCAN_RANGE,
                    m_next_trx_id_range := TRX_ID_MAX \<rparr>))
      else
        (case m_scan_pass s of
           INIT_SCANNING \<Rightarrow>
             Inr (s\<lparr> m_scan_pass := SCANNING_RW_TRX_LIST,
                      m_start_trx_id_range := 0,
                      m_end_trx_id_range := SCAN_RANGE,
                      m_next_trx_id_range := TRX_ID_MAX \<rparr>)
         | SCANNING_RW_TRX_LIST \<Rightarrow>
             Inr (s\<lparr> m_scan_pass := SCANNING_MYSQL_TRX_LIST,
                      m_start_trx_id_range := 0,
                      m_end_trx_id_range := SCAN_RANGE,
                      m_next_trx_id_range := TRX_ID_MAX \<rparr>)
         | SCANNING_MYSQL_TRX_LIST \<Rightarrow>
             Inr (s\<lparr> m_scan_pass := DONE_SCANNING \<rparr>)
         | DONE_SCANNING \<Rightarrow> Inl UT_ERROR))"

text \<open>
  \<^verbatim>\<open>trx_id_in_range\<close> returns the answer and the state with the next-range hint updated.
  The debug-only assertion \<^verbatim>\<open>ut_ad(trx_id < TRX_ID_MAX)\<close> is compiled out of a release
  build and is not part of the model.
\<close>

definition trx_id_in_range ::
  "trx_id_t \<Rightarrow> Innodb_trx_scan_state \<Rightarrow> bool \<times> Innodb_trx_scan_state" where
  "trx_id_in_range trx_id s =
     (if m_start_trx_id_range s \<le> trx_id \<and> trx_id < m_end_trx_id_range s then (True, s)
      else if m_end_trx_id_range s \<le> trx_id \<and> trx_id < m_next_trx_id_range s
      then (False, s\<lparr> m_next_trx_id_range := trx_id \<rparr>)
      else (False, s))"

text \<open>
  A scan session drives the state through a sequence of range queries and
  \<^verbatim>\<open>prepare_next_scan\<close> calls. \<open>passes_observed\<close> lists the pass before every operation
  and after the last one; the run stops at a fatal error. \<open>ranges_in_pass\<close> lists the
  ranges \<open>(start, end)\<close> the state goes through for as long as the pass stays the one it
  started in.
\<close>

datatype scan_op = InRange trx_id_t | Advance

fun passes_observed ::
  "trx_id_t \<Rightarrow> scan_op list \<Rightarrow> Innodb_trx_scan_state \<Rightarrow> scan_pass list" where
  "passes_observed TRX_ID_MAX [] s = [get_pass s]"
| "passes_observed TRX_ID_MAX (InRange trx_id # ops) s =
     get_pass s # passes_observed TRX_ID_MAX ops (snd (trx_id_in_range trx_id s))"
| "passes_observed TRX_ID_MAX (Advance # ops) s =
     (case prepare_next_scan TRX_ID_MAX s of
        Inl e \<Rightarrow> [get_pass s]
      | Inr s' \<Rightarrow> get_pass s # passes_observed TRX_ID_MAX ops s')"

fun ranges_in_pass ::
  "trx_id_t \<Rightarrow> scan_op list \<Rightarrow> Innodb_trx_scan_state \<Rightarrow> (trx_id_t \<times> trx_id_t) list" where
  "ranges_in_pass TRX_ID_MAX [] s = [(m_start_trx_id_range s, m_end_trx_id_range s)]"
| "ranges_in_pass TRX_ID_MAX (InRange trx_id # ops) s =
     ranges_in_pass TRX_ID_MAX ops (snd (trx_id_in_range trx_id s))"
| "ranges_in_pass TRX_ID_MAX (Advance # ops) s =
     (case prepare_next_scan TRX_ID_MAX s of
        Inl e \<Rightarrow> [(m_start_trx_id_range s, m_end_trx_id_range s)]
      | Inr s' \<Rightarrow>
          if get_pass s' = get_pass s
          then (m_start_trx_id_range s, m_end_trx_id_range s) # ranges_in_pass TRX_ID_MAX ops s'
          else [(m_start_trx_id_range s, m_end_trx_id_range s)])"

fun op_ids :: "scan_op list \<Rightarrow> trx_id_t list" where
  "op_ids [] = []"
| "op_ids (InRange trx_id # ops) = trx_id # op_ids ops"
| "op_ids (Advance # ops) = op_ids ops"

subsection \<open>Locks, transactions and the lock system, as the iterators observe them\<close>

text \<open>
  The lock and transaction manager is outside \<^verbatim>\<open>p_s.cc\<close>. A lock is the record of what
  its accessors return while the lock-system mutex is held; the field names are the
  accessors' names. \<open>lock_ptr\<close> is the address of the \<^verbatim>\<open>lock_t\<close> object: the source compares
  locks as pointers and reports the pointer as the row's identity. \<open>lock_rec_bitmap\<close> is
  the bitmap of a record lock, bit \<open>i\<close> standing for heap number \<open>i\<close>.
\<close>

datatype lock_type = LOCK_TABLE | LOCK_REC | LOCK_TYPE_OTHER

record lock_t =
  lock_ptr :: nat
  lock_get_trx_id :: trx_id_t
  lock_get_type :: lock_type
  lock_get_table_id :: "64 word"
  lock_rec_get_space_id :: space_id_t
  lock_rec_get_page_no :: page_no_t
  lock_rec_bitmap :: "bool list"
  lock_get_psi_thread_id :: ulonglong
  lock_get_psi_event_id :: ulonglong
  lock_get_table_name :: string
  lock_rec_get_index_name :: string
  lock_get_mode_str :: string
  lock_get_type_str :: string

datatype que_state_t =
    TRX_QUE_RUNNING
  | TRX_QUE_LOCK_WAIT
  | TRX_QUE_ROLLING_BACK
  | TRX_QUE_COMMITTING

text \<open>
  A transaction: \<open>trx_id\<close> is \<^verbatim>\<open>trx->id\<close>, \<open>trx_locks\<close> is the list walked by
  \<^verbatim>\<open>lock_get_first_trx_locks\<close> and \<^verbatim>\<open>lock_get_next_trx_locks\<close>, \<open>wait_lock\<close> is
  \<^verbatim>\<open>trx->lock.wait_lock\<close> (\<open>None\<close> for \<^verbatim>\<open>NULL\<close>), \<open>que_state\<close> is
  \<^verbatim>\<open>trx->lock.que_state\<close>.
\<close>

record trx_t =
  trx_is_started :: bool
  trx_id :: trx_id_t
  read_only :: bool
  trx_get_id_for_print :: trx_id_t
  que_state :: que_state_t
  wait_lock :: "lock_t option"
  trx_locks :: "lock_t list"

record trx_sys_t =
  rw_trx_list :: "trx_t list"
  mysql_trx_list :: "trx_t list"

text \<open>
  What else the file takes from headers and modules outside \<^verbatim>\<open>p_s.cc\<close>, as parameters:
  the macros \<^verbatim>\<open>TRX_ID_MAX\<close>, \<^verbatim>\<open>TRX_I_S_LOCK_ID_MAX_LEN\<close>, \<^verbatim>\<open>ULINT_UNDEFINED\<close>,
  \<^verbatim>\<open>SPACE_UNKNOWN\<close> and \<^verbatim>\<open>FIL_NULL\<close>, the decomposition of a table path
  (\<^verbatim>\<open>parse_filename\<close> and the character-set conversion behind \<^verbatim>\<open>parse_table_path\<close>),
  the conflict test \<^verbatim>\<open>lock_has_to_wait\<close>, the locks that successive
  \<^verbatim>\<open>lock_queue_iterator_get_prev\<close> calls return after \<^verbatim>\<open>lock_queue_iterator_reset\<close> on a
  lock, and \<^verbatim>\<open>p_s_fill_lock_data\<close>.
\<close>

record extern =
  TRX_ID_MAX :: trx_id_t
  TRX_I_S_LOCK_ID_MAX_LEN :: nat
  ULINT_UNDEFINED :: ulint
  SPACE_UNKNOWN :: space_id_t
  FIL_NULL :: page_no_t
  parse_table_path :: "string \<Rightarrow> string \<times> string \<times> string \<times> string"
  lock_has_to_wait :: "lock_t \<Rightarrow> lock_t \<Rightarrow> bool"
  lock_queue_iterator_get_prev :: "lock_t \<Rightarrow> lock_t list"
  p_s_fill_lock_data :: "lock_t \<Rightarrow> ulint \<Rightarrow> string"

definition g_engine :: string where
  "g_engine = ''INNODB''"

text \<open>
  Modelled from the spec: \<^verbatim>\<open>lock_rec_find_set_bit\<close> and \<^verbatim>\<open>lock_rec_find_next_set_bit\<close>
  are functions of the lock module. The spec has a record lock carry a bitmap of occupied
  row slots (heap numbers), each set bit a distinct row lock, walked in increasing
  order. \<open>lock_rec_set_bits\<close> lists the heap numbers of the set bits in increasing order;
  \<^verbatim>\<open>lock_rec_find_set_bit\<close> returns the first of them, or \<^verbatim>\<open>ULINT_UNDEFINED\<close> when no bit
  is set.
\<close>

definition lock_rec_set_bits :: "lock_t \<Rightarrow> ulint list" where
  "lock_rec_set_bits lock =
     map of_nat (filter (\<lambda>i. lock_rec_bitmap lock ! i) [0..<length (lock_rec_bitmap lock)])"

definition lock_rec_find_set_bit :: "extern \<Rightarrow> lock_t \<Rightarrow> ulint" where
  "lock_rec_find_set_bit ext lock =
     (case lock_rec_set_bits lock of [] \<Rightarrow> ULINT_UNDEFINED ext | heap_no # _ \<Rightarrow> heap_no)"

definition discard_trx :: "trx_t \<Rightarrow> bool \<Rightarrow> bool" where
  "discard_trx trx read_write =
     (if \<not> trx_is_started trx then True
      else if \<not> read_write \<and> trx_id trx \<noteq> 0 \<and> \<not> read_only trx then True
      else False)"

fun fetch_trx_in_trx_list :: "trx_id_t \<Rightarrow> bool \<Rightarrow> trx_t list \<Rightarrow> trx_t option" where
  "fetch_trx_in_trx_list trx_id' read_write [] = None"
| "fetch_trx_in_trx_list trx_id' read_write (trx # trx_list) =
     (if discard_trx trx read_write then fetch_trx_in_trx_list trx_id' read_write trx_list
      else if trx_id' = trx_get_id_for_print trx then Some trx
      else fetch_trx_in_trx_list trx_id' read_write trx_list)"

subsection \<open>Printing and scanning a lock id\<close>

text \<open>
  Modelled from the spec: the format macros \<^verbatim>\<open>TRX_ID_FMT\<close>, \<^verbatim>\<open>UINT64PF\<close>,
  \<^verbatim>\<open>SPACE_ID_PF\<close>, \<^verbatim>\<open>PAGE_NO_PF\<close> and \<^verbatim>\<open>ULINTPF\<close> are defined outside
  \<^verbatim>\<open>p_s.cc\<close>. The spec gives the encoding as the numbers of the lock separated by
  colons; the values printed are unsigned, so each conversion prints an unsigned value in
  decimal. \<^verbatim>\<open>snprintf\<close> with a buffer of \<open>n\<close> bytes keeps at most \<open>n - 1\<close> characters,
  the last byte being the terminator.
\<close>

definition digit_char :: "nat \<Rightarrow> char" where
  "digit_char d = ''0123456789'' ! d"

fun dec :: "nat \<Rightarrow> string" where
  "dec n = (if n < 10 then [digit_char n] else dec (n div 10) @ [digit_char (n mod 10)])"

declare dec.simps [simp del]

definition snprintf :: "nat \<Rightarrow> string \<Rightarrow> string" where
  "snprintf n s = take (n - 1) s"

definition print_table_lock_id :: "lock_t \<Rightarrow> nat \<Rightarrow> string" where
  "print_table_lock_id lock lock_id_size =
     snprintf lock_id_size
       (dec (unat (lock_get_trx_id lock)) @ '':'' @ dec (unat (lock_get_table_id lock)))"

definition print_record_lock_id :: "lock_t \<Rightarrow> ulint \<Rightarrow> nat \<Rightarrow> string" where
  "print_record_lock_id lock heap_no lock_id_size =
     snprintf lock_id_size
       (dec (unat (lock_get_trx_id lock)) @ '':'' @ dec (unat (lock_rec_get_space_id lock))
        @ '':'' @ dec (unat (lock_rec_get_page_no lock)) @ '':'' @ dec (unat heap_no))"

definition print_lock_id :: "lock_t \<Rightarrow> ulint \<Rightarrow> nat \<Rightarrow> error + string" where
  "print_lock_id lock heap_no lock_id_size =
     (case lock_get_type lock of
        LOCK_TABLE \<Rightarrow> Inr (print_table_lock_id lock lock_id_size)
      | LOCK_REC \<Rightarrow> Inr (print_record_lock_id lock heap_no lock_id_size)
      | LOCK_TYPE_OTHER \<Rightarrow> Inl UT_ERROR)"

text \<open>
  \<^verbatim>\<open>strtol(nptr, &endptr, 10)\<close> of the C library, with a 64-bit \<^verbatim>\<open>long\<close>: white space
  is skipped, one sign is optional, then the longest run of decimal digits is read; the
  value is clamped to the range of \<^verbatim>\<open>long\<close>; with no digit at all the value is 0 and
  \<^verbatim>\<open>endptr\<close> is \<^verbatim>\<open>nptr\<close>. A C string is the list of its characters before the
  terminating zero byte: \<open>deref\<close> reads \<^verbatim>\<open>*ptr\<close>.
\<close>

definition isspace :: "char \<Rightarrow> bool" where
  "isspace c \<longleftrightarrow> c \<in> set [CHR '' '', CHR 0x09, CHR 0x0A, CHR 0x0B, CHR 0x0C, CHR 0x0D]"

definition isdigit :: "char \<Rightarrow> bool" where
  "isdigit c \<longleftrightarrow> 48 \<le> (of_char c :: nat) \<and> (of_char c :: nat) \<le> 57"

definition digit_val :: "char \<Rightarrow> nat" where
  "digit_val c = of_char c - 48"

fun strtol_digits :: "nat \<Rightarrow> string \<Rightarrow> nat \<times> string" where
  "strtol_digits acc [] = (acc, [])"
| "strtol_digits acc (c # cs) =
     (if isdigit c then strtol_digits (acc * 10 + digit_val c) cs else (acc, c # cs))"

definition LONG_MAX :: int where
  "LONG_MAX = 2 ^ 63 - 1"

definition LONG_MIN :: int where
  "LONG_MIN = - (2 ^ 63)"

definition strtol :: "string \<Rightarrow> int \<times> string" where
  "strtol nptr =
     (let s = dropWhile isspace nptr;
          (negative, t) = (case s of
                             [] \<Rightarrow> (False, s)
                           | c # cs \<Rightarrow> if c = CHR ''-'' then (True, cs)
                                       else if c = CHR ''+'' then (False, cs)
                                       else (False, s))
      in case t of
           [] \<Rightarrow> (0, nptr)
         | c # cs \<Rightarrow>
             if isdigit c then
               (let (n, endptr) = strtol_digits 0 t;
                    v = (if negative then - int n else int n)
                in (max LONG_MIN (min LONG_MAX v), endptr))
             else (0, nptr))"

definition deref :: "string \<Rightarrow> char" where
  "deref ptr = (case ptr of [] \<Rightarrow> CHR 0x00 | c # _ \<Rightarrow> c)"

text \<open>
  The output parameters of \<^verbatim>\<open>scan_lock_id\<close> and its result: \<open>None\<close> is the return value 0
  (format error), otherwise the record holds the lock type and the five values written.
  The assignments convert \<^verbatim>\<open>long\<close> to \<^verbatim>\<open>ulint\<close>, \<^verbatim>\<open>space_id_t\<close> and \<^verbatim>\<open>page_no_t\<close>.
\<close>

record lock_id_fields =
  id_record_type :: lock_type
  id_trx_id :: ulint
  id_table_id :: ulint
  id_space_id :: space_id_t
  id_page_id :: page_no_t
  id_heap_id :: ulint

definition scan_lock_id :: "extern \<Rightarrow> string \<Rightarrow> lock_id_fields option" where
  "scan_lock_id ext lock_id =
     (let (id_1, ptr) = strtol lock_id in
      if deref ptr \<noteq> CHR '':'' then None
      else
        let (id_2, ptr) = strtol (tl ptr) in
        if deref ptr = CHR 0x00 then
          Some \<lparr> id_record_type = LOCK_TABLE, id_trx_id = word_of_int id_1,
                 id_table_id = word_of_int id_2, id_space_id = SPACE_UNKNOWN ext,
                 id_page_id = FIL_NULL ext, id_heap_id = ULINT_UNDEFINED ext \<rparr>
        else
          let (id_3, ptr) = strtol (tl ptr) in
          if deref ptr \<noteq> CHR '':'' then None
          else
            let (id_4, ptr) = strtol (tl ptr) in
            if deref ptr = CHR 0x00 then
              Some \<lparr> id_record_type = LOCK_REC, id_trx_id = word_of_int id_1,
                     id_table_id = 0, id_space_id = word_of_int id_2,
                     id_page_id = word_of_int id_3, id_heap_id = word_of_int id_4 \<rparr>
            else None)"

subsection \<open>The data-lock iterator\<close>

text \<open>
  The container of the performance schema: its \<^verbatim>\<open>accept_*\<close> callbacks, and the rows
  handed to \<^verbatim>\<open>add_lock_row\<close>, in the order of the calls. A \<^verbatim>\<open>NULL\<close> index name or lock
  data is \<open>None\<close>.
\<close>

record PSI_server_data_lock_container =
  accept_engine :: "string \<Rightarrow> bool"
  accept_transaction_id :: "ulonglong \<Rightarrow> bool"
  accept_thread_id_event_id :: "ulonglong \<Rightarrow> ulonglong \<Rightarrow> bool"
  accept_object :: "string \<times> string \<times> string \<times> string \<Rightarrow> bool"
  accept_lock_id :: "string \<Rightarrow> bool"

record data_lock_row =
  row_engine :: string
  row_engine_lock_id :: string
  row_transaction_id :: ulonglong
  row_thread_id :: ulonglong
  row_event_id :: ulonglong
  row_object :: "string \<times> string \<times> string \<times> string"
  row_index_name :: "string option"
  row_identity :: nat
  row_lock_mode :: string
  row_lock_type :: string
  row_lock_status :: string
  row_lock_data :: "string option"

datatype mutex_event =
    LOCK_MUTEX_ENTER
  | TRX_SYS_MUTEX_ENTER
  | TRX_SYS_MUTEX_EXIT
  | LOCK_MUTEX_EXIT

text \<open>The pointer comparison \<^verbatim>\<open>lock == wait_lock\<close>.\<close>

definition lock_eq_wait_lock :: "lock_t \<Rightarrow> lock_t option \<Rightarrow> bool" where
  "lock_eq_wait_lock lock wait_lock' =
     (case wait_lock' of None \<Rightarrow> False | Some w \<Rightarrow> lock_ptr lock = lock_ptr w)"

text \<open>
  The filter at the head of the loop of \<^verbatim>\<open>Innodb_data_lock_iterator::scan_trx\<close>:
  \<open>Inr False\<close> is \<^verbatim>\<open>continue\<close>, \<open>Inl UT_ERROR\<close> the \<^verbatim>\<open>default\<close> case.
\<close>

definition data_lock_filter :: "lock_t \<Rightarrow> lock_id_fields \<Rightarrow> error + bool" where
  "data_lock_filter lock f =
     (if lock_get_type lock \<noteq> id_record_type f then Inr False
      else case lock_get_type lock of
             LOCK_TABLE \<Rightarrow>
               if lock_get_table_id lock \<noteq> id_table_id f then Inr False else Inr True
           | LOCK_REC \<Rightarrow>
               if lock_rec_get_space_id lock \<noteq> id_space_id f
                  \<or> lock_rec_get_page_no lock \<noteq> id_page_id f
               then Inr False else Inr True
           | LOCK_TYPE_OTHER \<Rightarrow> Inl UT_ERROR)"

definition add_lock_row ::
  "string \<Rightarrow> ulonglong \<Rightarrow> lock_t \<Rightarrow> string \<times> string \<times> string \<times> string \<Rightarrow>
   string option \<Rightarrow> string \<Rightarrow> string option \<Rightarrow> data_lock_row" where
  "add_lock_row engine_lock_id trx_id' lock object index_name lock_status_str lock_data_str =
     \<lparr> row_engine = g_engine,
       row_engine_lock_id = engine_lock_id,
       row_transaction_id = trx_id',
       row_thread_id = lock_get_psi_thread_id lock,
       row_event_id = lock_get_psi_event_id lock,
       row_object = object,
       row_index_name = index_name,
       row_identity = lock_ptr lock,
       row_lock_mode = lock_get_mode_str lock,
       row_lock_type = lock_get_type_str lock,
       row_lock_status = lock_status_str,
       row_lock_data = lock_data_str \<rparr>"

text \<open>
  The \<^verbatim>\<open>LOCK_REC\<close> case: the loop from \<^verbatim>\<open>lock_rec_find_set_bit\<close> over
  \<^verbatim>\<open>lock_rec_find_next_set_bit\<close> goes through the set bits in increasing order until it
  reads \<^verbatim>\<open>ULINT_UNDEFINED\<close>, and adds one row for every heap number that passes.
\<close>

definition scan_trx_rec_rows ::
  "extern \<Rightarrow> PSI_server_data_lock_container \<Rightarrow> bool \<Rightarrow> ulonglong \<Rightarrow> bool \<Rightarrow>
   lock_id_fields \<Rightarrow> lock_t \<Rightarrow> string \<Rightarrow> data_lock_row list" where
  "scan_trx_rec_rows ext container with_lock_data trx_id' with_filter f lock lock_status_str =
     concat (map
       (\<lambda>heap_no.
          if \<not> with_filter \<or> heap_no = id_heap_id f then
            (let engine_lock_id =
                   print_record_lock_id lock heap_no (TRX_I_S_LOCK_ID_MAX_LEN ext + 1)
             in if accept_lock_id container engine_lock_id then
                  [add_lock_row engine_lock_id trx_id' lock
                     (parse_table_path ext (lock_get_table_name lock))
                     (Some (lock_rec_get_index_name lock)) lock_status_str
                     (if with_lock_data then Some (p_s_fill_lock_data ext lock heap_no)
                      else None)]
                else [])
          else [])
       (takeWhile (\<lambda>heap_no. heap_no \<noteq> ULINT_UNDEFINED ext) (lock_rec_set_bits lock)))"

text \<open>
  The loop over the locks of the transaction. \<^verbatim>\<open>lock_status_str\<close> is declared and
  initialised before the loop, so it is an argument of the recursion: an iteration that
  assigns it passes the new value on. The result is the list of the rows added;
  \<^verbatim>\<open>found\<close> is incremented with every row and is the length of that list.
\<close>

fun scan_trx_locks ::
  "extern \<Rightarrow> PSI_server_data_lock_container \<Rightarrow> bool \<Rightarrow> ulonglong \<Rightarrow> lock_t option \<Rightarrow>
   bool \<Rightarrow> lock_id_fields \<Rightarrow> lock_t list \<Rightarrow> string \<Rightarrow> error + data_lock_row list" where
  "scan_trx_locks ext container with_lock_data trx_id' wait_lock' with_filter f []
     lock_status_str = Inr []"
| "scan_trx_locks ext container with_lock_data trx_id' wait_lock' with_filter f (lock # locks)
     lock_status_str =
     (case (if with_filter then data_lock_filter lock f else Inr True) of
        Inl e \<Rightarrow> Inl e
      | Inr False \<Rightarrow>
          scan_trx_locks ext container with_lock_data trx_id' wait_lock' with_filter f locks
            lock_status_str
      | Inr True \<Rightarrow>
          if \<not> accept_thread_id_event_id container
                 (lock_get_psi_thread_id lock) (lock_get_psi_event_id lock)
          then scan_trx_locks ext container with_lock_data trx_id' wait_lock' with_filter f
                 locks lock_status_str
          else if \<not> accept_object container (parse_table_path ext (lock_get_table_name lock))
          then scan_trx_locks ext container with_lock_data trx_id' wait_lock' with_filter f
                 locks lock_status_str
          else
            (let lock_status_str =
                   (if lock_eq_wait_lock lock wait_lock' then ''WAITING''
                    else lock_status_str)
             in case lock_get_type lock of
                  LOCK_TABLE \<Rightarrow>
                    (let engine_lock_id =
                           print_table_lock_id lock (TRX_I_S_LOCK_ID_MAX_LEN ext + 1);
                         rows =
                           (if accept_lock_id container engine_lock_id then
                              [add_lock_row engine_lock_id trx_id' lock
                                 (parse_table_path ext (lock_get_table_name lock))
                                 None lock_status_str None]
                            else [])
                     in case scan_trx_locks ext container with_lock_data trx_id' wait_lock'
                               with_filter f locks lock_status_str of
                          Inl e \<Rightarrow> Inl e
                        | Inr rest \<Rightarrow> Inr (rows @ rest))
                | LOCK_REC \<Rightarrow>
                    (case scan_trx_locks ext container with_lock_data trx_id' wait_lock'
                            with_filter f locks lock_status_str of
                       Inl e \<Rightarrow> Inl e
                     | Inr rest \<Rightarrow>
                         Inr (scan_trx_rec_rows ext container with_lock_data trx_id'
                                with_filter f lock lock_status_str @ rest))
                | LOCK_TYPE_OTHER \<Rightarrow> Inl UT_ERROR))"

definition Innodb_data_lock_iterator_scan_trx ::
  "extern \<Rightarrow> PSI_server_data_lock_container \<Rightarrow> bool \<Rightarrow> trx_t \<Rightarrow> bool \<Rightarrow>
   lock_id_fields \<Rightarrow> error + data_lock_row list" where
  "Innodb_data_lock_iterator_scan_trx ext container with_lock_data trx with_filter f =
     (if \<not> accept_transaction_id container (trx_get_id_for_print trx) then Inr []
      else scan_trx_locks ext container with_lock_data (trx_get_id_for_print trx)
             (wait_lock trx) with_filter f (trx_locks trx) ''GRANTED'')"

text \<open>
  The arguments \<^verbatim>\<open>false, 0, 0, 0, 0, 0\<close> of an unfiltered call: the filter values are not
  read.
\<close>

definition no_filter :: lock_id_fields where
  "no_filter = \<lparr> id_record_type = LOCK_TYPE_OTHER, id_trx_id = 0, id_table_id = 0,
                 id_space_id = 0, id_page_id = 0, id_heap_id = 0 \<rparr>"

text \<open>
  \<^verbatim>\<open>scan_trx_list\<close> walks a transaction list with the scan state, which
  \<^verbatim>\<open>trx_id_in_range\<close> updates, and returns the state and the rows added.
\<close>

fun Innodb_data_lock_iterator_scan_trx_list ::
  "extern \<Rightarrow> PSI_server_data_lock_container \<Rightarrow> bool \<Rightarrow> bool \<Rightarrow> trx_t list \<Rightarrow>
   Innodb_trx_scan_state \<Rightarrow> error + (Innodb_trx_scan_state \<times> data_lock_row list)" where
  "Innodb_data_lock_iterator_scan_trx_list ext container with_lock_data read_write [] s =
     Inr (s, [])"
| "Innodb_data_lock_iterator_scan_trx_list ext container with_lock_data read_write
     (trx # trx_list) s =
     (if discard_trx trx read_write
      then Innodb_data_lock_iterator_scan_trx_list ext container with_lock_data read_write
             trx_list s
      else
        (let (in_range, s1) = trx_id_in_range (trx_get_id_for_print trx) s
         in if \<not> in_range
            then Innodb_data_lock_iterator_scan_trx_list ext container with_lock_data
                   read_write trx_list s1
            else
              (case Innodb_data_lock_iterator_scan_trx ext container with_lock_data trx
                      False no_filter of
                 Inl e \<Rightarrow> Inl e
               | Inr rows \<Rightarrow>
                   (case Innodb_data_lock_iterator_scan_trx_list ext container
                           with_lock_data read_write trx_list s1 of
                      Inl e \<Rightarrow> Inl e
                    | Inr (s2, rest) \<Rightarrow> Inr (s2, rows @ rest)))))"

text \<open>
  One of the two \<^verbatim>\<open>while\<close> loops of \<^verbatim>\<open>scan\<close>: \<open>pass\<close>, \<open>read_write\<close> and \<open>trx_list\<close> are
  \<^verbatim>\<open>SCANNING_RW_TRX_LIST\<close>, \<^verbatim>\<open>true\<close> and the RW list for the first loop,
  \<^verbatim>\<open>SCANNING_MYSQL_TRX_LIST\<close>, \<^verbatim>\<open>false\<close> and the MySQL list for the second. The loop state
  is the scan state, \<^verbatim>\<open>found\<close> and the rows added so far. Nothing in the loop bounds the
  number of iterations, so the result is an option: \<open>None\<close> when the loop does not end.
\<close>

partial_function (option) scan_while ::
  "extern \<Rightarrow> PSI_server_data_lock_container \<Rightarrow> bool \<Rightarrow> scan_pass \<Rightarrow> bool \<Rightarrow> trx_t list \<Rightarrow>
   Innodb_trx_scan_state \<times> nat \<times> data_lock_row list \<Rightarrow>
   (error + Innodb_trx_scan_state \<times> nat \<times> data_lock_row list) option" where
  "scan_while ext container with_lock_data pass read_write trx_list st =
     (case st of (s, found, rows) \<Rightarrow>
        if get_pass s = pass \<and> found = 0 then
          (case Innodb_data_lock_iterator_scan_trx_list ext container with_lock_data
                  read_write trx_list s of
             Inl e \<Rightarrow> Some (Inl e)
           | Inr (s1, new_rows) \<Rightarrow>
               (case prepare_next_scan (TRX_ID_MAX ext) s1 of
                  Inl e \<Rightarrow> Some (Inl e)
                | Inr s2 \<Rightarrow>
                    scan_while ext container with_lock_data pass read_write trx_list
                      (s2, length new_rows, rows @ new_rows)))
        else Some (Inr (s, found, rows)))"

text \<open>
  \<^verbatim>\<open>Innodb_data_lock_iterator::scan\<close>. The result holds the value returned (\<^verbatim>\<open>true\<close>: the
  iterator is done), the scan state, the rows added to the container and the mutex
  operations, in order. \<open>scan_locked\<close> is the function from its second \<^verbatim>\<open>if\<close> on.
\<close>

definition scan_locked ::
  "extern \<Rightarrow> PSI_server_data_lock_container \<Rightarrow> bool \<Rightarrow> trx_sys_t \<Rightarrow> Innodb_trx_scan_state \<Rightarrow>
   (error + bool \<times> Innodb_trx_scan_state \<times> data_lock_row list \<times> mutex_event list) option" where
  "scan_locked ext container with_lock_data trx_sys s =
     (if get_pass s = DONE_SCANNING then Some (Inr (True, s, [], []))
      else
        (case scan_while ext container with_lock_data SCANNING_RW_TRX_LIST True
                (rw_trx_list trx_sys) (s, 0, []) of
           None \<Rightarrow> None
         | Some (Inl e) \<Rightarrow> Some (Inl e)
         | Some (Inr st1) \<Rightarrow>
             (case scan_while ext container with_lock_data SCANNING_MYSQL_TRX_LIST False
                     (mysql_trx_list trx_sys) st1 of
                None \<Rightarrow> None
              | Some (Inl e) \<Rightarrow> Some (Inl e)
              | Some (Inr (s2, found, rows)) \<Rightarrow>
                  Some (Inr (False, s2, rows,
                    [LOCK_MUTEX_ENTER, TRX_SYS_MUTEX_ENTER,
                     TRX_SYS_MUTEX_EXIT, LOCK_MUTEX_EXIT])))))"

definition Innodb_data_lock_iterator_scan ::
  "extern \<Rightarrow> PSI_server_data_lock_container \<Rightarrow> bool \<Rightarrow> trx_sys_t \<Rightarrow> Innodb_trx_scan_state \<Rightarrow>
   (error + bool \<times> Innodb_trx_scan_state \<times> data_lock_row list \<times> mutex_event list) option" where
  "Innodb_data_lock_iterator_scan ext container with_lock_data trx_sys s =
     (if get_pass s = INIT_SCANNING then
        (if \<not> accept_engine container g_engine then Some (Inr (True, s, [], []))
         else case prepare_next_scan (TRX_ID_MAX ext) s of
                Inl e \<Rightarrow> Some (Inl e)
              | Inr s' \<Rightarrow> scan_locked ext container with_lock_data trx_sys s')
      else scan_locked ext container with_lock_data trx_sys s)"

text \<open>
  \<^verbatim>\<open>Innodb_data_lock_iterator::fetch\<close>: the value returned, the rows added and the mutex
  operations.
\<close>

definition Innodb_data_lock_iterator_fetch ::
  "extern \<Rightarrow> PSI_server_data_lock_container \<Rightarrow> string \<Rightarrow> bool \<Rightarrow> trx_sys_t \<Rightarrow>
   error + bool \<times> data_lock_row list \<times> mutex_event list" where
  "Innodb_data_lock_iterator_fetch ext container engine_lock_id with_lock_data trx_sys =
     (if \<not> accept_engine container g_engine then Inr (True, [], [])
      else case scan_lock_id ext engine_lock_id of
             None \<Rightarrow> Inr (True, [], [])
           | Some f \<Rightarrow>
               (let trx = (case fetch_trx_in_trx_list (id_trx_id f) True
                                  (rw_trx_list trx_sys) of
                             None \<Rightarrow> fetch_trx_in_trx_list (id_trx_id f) False
                                       (mysql_trx_list trx_sys)
                           | Some t \<Rightarrow> Some t)
                in case trx of
                     None \<Rightarrow>
                       Inr (True, [],
                         [LOCK_MUTEX_ENTER, TRX_SYS_MUTEX_ENTER,
                          TRX_SYS_MUTEX_EXIT, LOCK_MUTEX_EXIT])
                   | Some t \<Rightarrow>
                       (case Innodb_data_lock_iterator_scan_trx ext container with_lock_data
                               t True f of
                          Inl e \<Rightarrow> Inl e
                        | Inr rows \<Rightarrow>
                            Inr (True, rows,
                              [LOCK_MUTEX_ENTER, TRX_SYS_MUTEX_ENTER,
                               TRX_SYS_MUTEX_EXIT, LOCK_MUTEX_EXIT]))))"

subsection \<open>The data-lock-wait iterator\<close>

record PSI_server_data_lock_wait_container =
  wait_accept_engine :: "string \<Rightarrow> bool"
  accept_requesting_transaction_id :: "ulonglong \<Rightarrow> bool"
  accept_blocking_transaction_id :: "ulonglong \<Rightarrow> bool"
  accept_requesting_thread_id_event_id :: "ulonglong \<Rightarrow> ulonglong \<Rightarrow> bool"
  accept_blocking_thread_id_event_id :: "ulonglong \<Rightarrow> ulonglong \<Rightarrow> bool"
  accept_requesting_lock_id :: "string \<Rightarrow> bool"
  accept_blocking_lock_id :: "string \<Rightarrow> bool"

record data_lock_wait_row =
  wait_row_engine :: string
  requesting_engine_lock_id :: string
  requesting_trx_id :: ulonglong
  requesting_thread_id :: ulonglong
  requesting_event_id :: ulonglong
  requesting_identity :: nat
  blocking_engine_lock_id :: string
  blocking_trx_id :: ulonglong
  blocking_thread_id :: ulonglong
  blocking_event_id :: ulonglong
  blocking_identity :: nat

text \<open>
  The filter of \<^verbatim>\<open>Innodb_data_lock_wait_iterator::scan_trx\<close>, written out once for the
  requesting lock (where a mismatch is \<^verbatim>\<open>return 0\<close>) and once for the blocking lock (where
  it is \<^verbatim>\<open>continue\<close>): \<open>Inr False\<close> is the mismatch, \<open>Inl UT_ERROR\<close> the \<^verbatim>\<open>default\<close> case.
\<close>

definition data_lock_wait_filter ::
  "extern \<Rightarrow> lock_t \<Rightarrow> lock_id_fields \<Rightarrow> error + bool" where
  "data_lock_wait_filter ext lock f =
     (if lock_get_type lock \<noteq> id_record_type f then Inr False
      else case lock_get_type lock of
             LOCK_TABLE \<Rightarrow>
               if lock_get_table_id lock \<noteq> id_table_id f then Inr False else Inr True
           | LOCK_REC \<Rightarrow>
               if lock_rec_get_space_id lock \<noteq> id_space_id f
                  \<or> lock_rec_get_page_no lock \<noteq> id_page_id f
                  \<or> lock_rec_find_set_bit ext lock \<noteq> id_heap_id f
               then Inr False else Inr True
           | LOCK_TYPE_OTHER \<Rightarrow> Inl UT_ERROR)"

definition add_lock_wait_row ::
  "string \<Rightarrow> ulonglong \<Rightarrow> lock_t \<Rightarrow> string \<Rightarrow> lock_t \<Rightarrow> data_lock_wait_row" where
  "add_lock_wait_row requesting_id requesting_trx wait_lock' blocking_id curr_lock =
     \<lparr> wait_row_engine = g_engine,
       requesting_engine_lock_id = requesting_id,
       requesting_trx_id = requesting_trx,
       requesting_thread_id = lock_get_psi_thread_id wait_lock',
       requesting_event_id = lock_get_psi_event_id wait_lock',
       requesting_identity = lock_ptr wait_lock',
       blocking_engine_lock_id = blocking_id,
       blocking_trx_id = lock_get_trx_id curr_lock,
       blocking_thread_id = lock_get_psi_thread_id curr_lock,
       blocking_event_id = lock_get_psi_event_id curr_lock,
       blocking_identity = lock_ptr curr_lock \<rparr>"

text \<open>
  The loop over the lock queue: the list holds the locks that the successive
  \<^verbatim>\<open>lock_queue_iterator_get_prev\<close> calls return. \<open>heap_no\<close> is the variable of that name,
  set before the loop from the requesting lock.
\<close>

fun scan_trx_queue ::
  "extern \<Rightarrow> PSI_server_data_lock_wait_container \<Rightarrow> bool \<Rightarrow> lock_id_fields \<Rightarrow>
   lock_t \<Rightarrow> ulonglong \<Rightarrow> string \<Rightarrow> ulint \<Rightarrow> lock_t list \<Rightarrow>
   error + data_lock_wait_row list" where
  "scan_trx_queue ext container with_filter fb wait_lock' requesting_trx requesting_id heap_no
     [] = Inr []"
| "scan_trx_queue ext container with_filter fb wait_lock' requesting_trx requesting_id heap_no
     (curr_lock # queue) =
     (case (if with_filter then data_lock_wait_filter ext curr_lock fb else Inr True) of
        Inl e \<Rightarrow> Inl e
      | Inr False \<Rightarrow>
          scan_trx_queue ext container with_filter fb wait_lock' requesting_trx requesting_id
            heap_no queue
      | Inr True \<Rightarrow>
          if lock_has_to_wait ext wait_lock' curr_lock then
            (if \<not> accept_blocking_transaction_id container (lock_get_trx_id curr_lock)
             then scan_trx_queue ext container with_filter fb wait_lock' requesting_trx
                    requesting_id heap_no queue
             else if \<not> accept_blocking_thread_id_event_id container
                         (lock_get_psi_thread_id curr_lock) (lock_get_psi_event_id curr_lock)
             then scan_trx_queue ext container with_filter fb wait_lock' requesting_trx
                    requesting_id heap_no queue
             else
               (case print_lock_id curr_lock heap_no (TRX_I_S_LOCK_ID_MAX_LEN ext + 1) of
                  Inl e \<Rightarrow> Inl e
                | Inr blocking_id \<Rightarrow>
                    if \<not> accept_blocking_lock_id container blocking_id
                    then scan_trx_queue ext container with_filter fb wait_lock'
                           requesting_trx requesting_id heap_no queue
                    else
                      (case scan_trx_queue ext container with_filter fb wait_lock'
                              requesting_trx requesting_id heap_no queue of
                         Inl e \<Rightarrow> Inl e
                       | Inr rest \<Rightarrow>
                           Inr (add_lock_wait_row requesting_id requesting_trx wait_lock'
                                  blocking_id curr_lock # rest))))
          else scan_trx_queue ext container with_filter fb wait_lock' requesting_trx
                 requesting_id heap_no queue)"

text \<open>
  \<^verbatim>\<open>Innodb_data_lock_wait_iterator::scan_trx\<close>: \<open>fr\<close> and \<open>fb\<close> are the filter values for the
  requesting and for the blocking lock. \<^verbatim>\<open>ut_a(wait_lock != NULL)\<close> is fatal.
\<close>

definition Innodb_data_lock_wait_iterator_scan_trx ::
  "extern \<Rightarrow> PSI_server_data_lock_wait_container \<Rightarrow> trx_t \<Rightarrow> bool \<Rightarrow>
   lock_id_fields \<Rightarrow> lock_id_fields \<Rightarrow> error + data_lock_wait_row list" where
  "Innodb_data_lock_wait_iterator_scan_trx ext container trx with_filter fr fb =
     (if que_state trx \<noteq> TRX_QUE_LOCK_WAIT then Inr []
      else case wait_lock trx of
             None \<Rightarrow> Inl UT_ERROR
           | Some wait_lock' \<Rightarrow>
               (case (if with_filter then data_lock_wait_filter ext wait_lock' fr else Inr True) of
                  Inl e \<Rightarrow> Inl e
                | Inr False \<Rightarrow> Inr []
                | Inr True \<Rightarrow>
                    if \<not> accept_requesting_transaction_id container (trx_get_id_for_print trx)
                    then Inr []
                    else if \<not> accept_requesting_thread_id_event_id container
                                (lock_get_psi_thread_id wait_lock')
                                (lock_get_psi_event_id wait_lock')
                    then Inr []
                    else
                      (let heap_no = (if lock_get_type wait_lock' = LOCK_REC
                                      then lock_rec_find_set_bit ext wait_lock' else 0)
                       in case print_lock_id wait_lock' heap_no
                                 (TRX_I_S_LOCK_ID_MAX_LEN ext + 1) of
                            Inl e \<Rightarrow> Inl e
                          | Inr requesting_id \<Rightarrow>
                              if \<not> accept_requesting_lock_id container requesting_id
                              then Inr []
                              else scan_trx_queue ext container with_filter fb wait_lock'
                                     (trx_get_id_for_print trx) requesting_id heap_no
                                     (lock_queue_iterator_get_prev ext wait_lock'))))"

definition Innodb_data_lock_wait_iterator_fetch ::
  "extern \<Rightarrow> PSI_server_data_lock_wait_container \<Rightarrow> string \<Rightarrow> string \<Rightarrow> trx_sys_t \<Rightarrow>
   error + bool \<times> data_lock_wait_row list \<times> mutex_event list" where
  "Innodb_data_lock_wait_iterator_fetch ext container requesting_engine_lock_id'
     blocking_engine_lock_id' trx_sys =
     (if \<not> wait_accept_engine container g_engine then Inr (True, [], [])
      else case scan_lock_id ext requesting_engine_lock_id' of
             None \<Rightarrow> Inr (True, [], [])
           | Some fr \<Rightarrow>
               (case scan_lock_id ext blocking_engine_lock_id' of
                  None \<Rightarrow> Inr (True, [], [])
                | Some fb \<Rightarrow>
                    (let trx = (case fetch_trx_in_trx_list (id_trx_id fr) True
                                       (rw_trx_list trx_sys) of
                                  None \<Rightarrow> fetch_trx_in_trx_list (id_trx_id fr) False
                                            (mysql_trx_list trx_sys)
                                | Some t \<Rightarrow> Some t)
                     in case trx of
                          None \<Rightarrow>
                            Inr (True, [],
                              [LOCK_MUTEX_ENTER, TRX_SYS_MUTEX_ENTER,
                               TRX_SYS_MUTEX_EXIT, LOCK_MUTEX_EXIT])
                        | Some t \<Rightarrow>
                            (case Innodb_data_lock_wait_iterator_scan_trx ext container t
                                    True fr fb of
                               Inl e \<Rightarrow> Inl e
                             | Inr rows \<Rightarrow>
                                 Inr (True, rows,
                                   [LOCK_MUTEX_ENTER, TRX_SYS_MUTEX_ENTER,
                                    TRX_SYS_MUTEX_EXIT, LOCK_MUTEX_EXIT])))))"

subsection \<open>Predicates of the specification\<close>

text \<open>
  The ranges of a scan state are well formed when the start is a multiple of the range
  size, the end is the start plus the range size without wrap-around, and a recorded
  hint lies at or above the end and below \<open>2 ^ 64 - 256\<close>.
\<close>

definition scan_range_inv :: "trx_id_t \<Rightarrow> Innodb_trx_scan_state \<Rightarrow> bool" where
  "scan_range_inv M s \<longleftrightarrow>
     unat (m_start_trx_id_range s) mod 256 = 0
   \<and> unat (m_end_trx_id_range s) = unat (m_start_trx_id_range s) + 256
   \<and> (m_next_trx_id_range s = M
      \<or> (m_end_trx_id_range s \<le> m_next_trx_id_range s
         \<and> unat (m_next_trx_id_range s) < 2 ^ 64 - 256))"

definition range_before :: "trx_id_t \<times> trx_id_t \<Rightarrow> trx_id_t \<times> trx_id_t \<Rightarrow> bool" where
  "range_before r r' \<longleftrightarrow> snd r \<le> fst r' \<and> fst r < fst r' \<and> snd r < snd r'"

definition range_proper :: "trx_id_t \<times> trx_id_t \<Rightarrow> bool" where
  "range_proper r \<longleftrightarrow> unat (snd r) = unat (fst r) + 256"

fun later_passes :: "scan_pass \<Rightarrow> scan_pass list" where
  "later_passes INIT_SCANNING =
     [INIT_SCANNING, SCANNING_RW_TRX_LIST, SCANNING_MYSQL_TRX_LIST, DONE_SCANNING]"
| "later_passes SCANNING_RW_TRX_LIST =
     [SCANNING_RW_TRX_LIST, SCANNING_MYSQL_TRX_LIST, DONE_SCANNING]"
| "later_passes SCANNING_MYSQL_TRX_LIST = [SCANNING_MYSQL_TRX_LIST, DONE_SCANNING]"
| "later_passes DONE_SCANNING = [DONE_SCANNING]"

text \<open>
  The wait iterator: the heap number it prints lock ids with, the conditions on the
  requesting side and on a lock of the queue under which a row is added, and the lock
  id printed for a lock of a known type.
\<close>

definition wait_heap_no :: "extern \<Rightarrow> lock_t \<Rightarrow> ulint" where
  "wait_heap_no ext wait_lock' =
     (if lock_get_type wait_lock' = LOCK_REC then lock_rec_find_set_bit ext wait_lock' else 0)"

definition requesting_accepted ::
  "extern \<Rightarrow> PSI_server_data_lock_wait_container \<Rightarrow> trx_t \<Rightarrow> bool \<Rightarrow> lock_id_fields \<Rightarrow>
   lock_t \<Rightarrow> bool" where
  "requesting_accepted ext container trx with_filter fr wait_lock' \<longleftrightarrow>
     (with_filter \<longrightarrow> data_lock_wait_filter ext wait_lock' fr = Inr True)
   \<and> accept_requesting_transaction_id container (trx_get_id_for_print trx)
   \<and> accept_requesting_thread_id_event_id container
        (lock_get_psi_thread_id wait_lock') (lock_get_psi_event_id wait_lock')
   \<and> (case print_lock_id wait_lock' (wait_heap_no ext wait_lock')
              (TRX_I_S_LOCK_ID_MAX_LEN ext + 1) of
        Inl e \<Rightarrow> False
      | Inr requesting_id \<Rightarrow> accept_requesting_lock_id container requesting_id)"

definition blocking_accepted ::
  "extern \<Rightarrow> PSI_server_data_lock_wait_container \<Rightarrow> bool \<Rightarrow> lock_id_fields \<Rightarrow>
   lock_t \<Rightarrow> lock_t \<Rightarrow> bool" where
  "blocking_accepted ext container with_filter fb wait_lock' curr_lock \<longleftrightarrow>
     (with_filter \<longrightarrow> data_lock_wait_filter ext curr_lock fb = Inr True)
   \<and> accept_blocking_transaction_id container (lock_get_trx_id curr_lock)
   \<and> accept_blocking_thread_id_event_id container
        (lock_get_psi_thread_id curr_lock) (lock_get_psi_event_id curr_lock)
   \<and> (case print_lock_id curr_lock (wait_heap_no ext wait_lock')
              (TRX_I_S_LOCK_ID_MAX_LEN ext + 1) of
        Inl e \<Rightarrow> False
      | Inr blocking_id \<Rightarrow> accept_blocking_lock_id container blocking_id)"

definition lock_id_of :: "lock_t \<Rightarrow> ulint \<Rightarrow> nat \<Rightarrow> string" where
  "lock_id_of lock heap_no lock_id_size =
     (case lock_get_type lock of
        LOCK_REC \<Rightarrow> print_record_lock_id lock heap_no lock_id_size
      | _ \<Rightarrow> print_table_lock_id lock lock_id_size)"

text \<open>
  For the scan: the identifiers a walk of a transaction list passes to
  \<^verbatim>\<open>trx_id_in_range\<close>, the scan state after these calls, and the number of these
  identifiers at or above the end of the current range.
\<close>

definition scan_ids :: "bool \<Rightarrow> trx_t list \<Rightarrow> trx_id_t list" where
  "scan_ids read_write trx_list =
     map trx_get_id_for_print (filter (\<lambda>trx. \<not> discard_trx trx read_write) trx_list)"

definition observe_ids :: "trx_id_t list \<Rightarrow> Innodb_trx_scan_state \<Rightarrow> Innodb_trx_scan_state" where
  "observe_ids ids s = fold (\<lambda>i s. snd (trx_id_in_range i s)) ids s"

definition pending :: "Innodb_trx_scan_state \<Rightarrow> trx_id_t list \<Rightarrow> nat" where
  "pending s ids = length (filter (\<lambda>i. m_end_trx_id_range s \<le> i) ids)"

subsection \<open>Example data\<close>

text \<open>
  Locks, transactions, containers that accept everything and a lock system for the
  examples: \<^verbatim>\<open>TRX_ID_MAX\<close> is the largest 64-bit value, lock ids have room for 80
  characters, the lock queue of every lock is the list given, and a lock has to wait for
  the locks of other transactions.
\<close>

definition table_lock :: "nat \<Rightarrow> trx_id_t \<Rightarrow> 64 word \<Rightarrow> lock_t" where
  "table_lock p t table =
     \<lparr> lock_ptr = p, lock_get_trx_id = t, lock_get_type = LOCK_TABLE,
       lock_get_table_id = table, lock_rec_get_space_id = 0, lock_rec_get_page_no = 0,
       lock_rec_bitmap = [], lock_get_psi_thread_id = 1, lock_get_psi_event_id = 1,
       lock_get_table_name = ''test/t1'', lock_rec_get_index_name = [],
       lock_get_mode_str = ''IX'', lock_get_type_str = ''TABLE'' \<rparr>"

definition record_lock ::
  "nat \<Rightarrow> trx_id_t \<Rightarrow> space_id_t \<Rightarrow> page_no_t \<Rightarrow> bool list \<Rightarrow> lock_t" where
  "record_lock p t space page bits =
     \<lparr> lock_ptr = p, lock_get_trx_id = t, lock_get_type = LOCK_REC,
       lock_get_table_id = 0, lock_rec_get_space_id = space, lock_rec_get_page_no = page,
       lock_rec_bitmap = bits, lock_get_psi_thread_id = 1, lock_get_psi_event_id = 1,
       lock_get_table_name = ''test/t1'', lock_rec_get_index_name = ''PRIMARY'',
       lock_get_mode_str = ''X'', lock_get_type_str = ''RECORD'' \<rparr>"

definition example_trx :: "trx_id_t \<Rightarrow> lock_t list \<Rightarrow> lock_t option \<Rightarrow> trx_t" where
  "example_trx t locks waiting =
     \<lparr> trx_is_started = True, trx_id = t, read_only = False, trx_get_id_for_print = t,
       que_state = (if waiting = None then TRX_QUE_RUNNING else TRX_QUE_LOCK_WAIT),
       wait_lock = waiting, trx_locks = locks \<rparr>"

definition example_extern :: "lock_t list \<Rightarrow> extern" where
  "example_extern queue =
     \<lparr> TRX_ID_MAX = - 1, TRX_I_S_LOCK_ID_MAX_LEN = 80,
       ULINT_UNDEFINED = - 1, SPACE_UNKNOWN = - 1, FIL_NULL = - 1,
       parse_table_path = (\<lambda>path. ([], path, [], [])),
       lock_has_to_wait = (\<lambda>lock1 lock2. lock_get_trx_id lock1 \<noteq> lock_get_trx_id lock2),
       lock_queue_iterator_get_prev = (\<lambda>lock. queue),
       p_s_fill_lock_data = (\<lambda>lock heap_no. []) \<rparr>"

definition accept_all :: PSI_server_data_lock_container where
  "accept_all =
     \<lparr> accept_engine = (\<lambda>engine. True), accept_transaction_id = (\<lambda>t. True),
       accept_thread_id_event_id = (\<lambda>thread event. True), accept_object = (\<lambda>object. True),
       accept_lock_id = (\<lambda>engine_lock_id. True) \<rparr>"

definition accept_all_waits :: PSI_server_data_lock_wait_container where
  "accept_all_waits =
     \<lparr> wait_accept_engine = (\<lambda>engine. True),
       accept_requesting_transaction_id = (\<lambda>t. True),
       accept_blocking_transaction_id = (\<lambda>t. True),
       accept_requesting_thread_id_event_id = (\<lambda>thread event. True),
       accept_blocking_thread_id_event_id = (\<lambda>thread event. True),
       accept_requesting_lock_id = (\<lambda>engine_lock_id. True),
       accept_blocking_lock_id = (\<lambda>engine_lock_id. True) \<rparr>"

text \<open>
  The population of the example scan: 300 started transactions with the ids 0 to 299,
  each holding one table lock; \<open>example_row i\<close> is the row of transaction \<open>i\<close>.
\<close>

definition example_population :: "trx_t list" where
  "example_population =
     map (\<lambda>i. example_trx (of_nat i) [table_lock i (of_nat i) 1] None) [0..<300]"

definition example_row :: "nat \<Rightarrow> data_lock_row" where
  "example_row i =
     add_lock_row (dec i @ '':1'') (of_nat i) (table_lock i (of_nat i) 1)
       ([], ''test/t1'', [], []) None ''GRANTED'' None"

definition mutexes_taken :: "mutex_event list" where
  "mutexes_taken = [LOCK_MUTEX_ENTER, TRX_SYS_MUTEX_ENTER, TRX_SYS_MUTEX_EXIT, LOCK_MUTEX_EXIT]"

section \<open>The scan state: ranges and passes\<close>

lemma unat_floor_256: "unat (x - x mod 256 :: 64 word) = unat x div 256 * 256"
proof -
  have "unat (x mod 256) = unat x mod 256" by (simp add: unat_mod)
  moreover have "x mod 256 \<le> x" by (simp add: word_le_nat_alt unat_mod)
  then have "unat (x - x mod 256) = unat x - unat (x mod 256)" by (simp add: unat_sub)
  ultimately show ?thesis by (simp add: minus_mod_eq_div_mult)
qed

lemma unat_add_256: "unat (x::64 word) < 2 ^ 64 - 256 \<Longrightarrow> unat (x + 256) = unat x + 256"
  by (simp add: unat_word_ariths)

lemma floor_256_mono: "(a::nat) mod 256 = 0 \<Longrightarrow> a \<le> n \<Longrightarrow> a \<le> n div 256 * 256"
proof -
  assume m: "a mod 256 = 0" and le: "a \<le> n"
  from m have "a = a div 256 * 256" by (simp add: mod_eq_0_iff_dvd)
  moreover from le have "a div 256 \<le> n div 256" by (rule div_le_mono)
  then have "a div 256 * 256 \<le> n div 256 * 256" by simp
  ultimately show ?thesis by simp
qed

lemma prepare_next_scan_hint:
  assumes "m_next_trx_id_range s \<noteq> M"
  shows "\<exists>s'. prepare_next_scan M s = Inr s'
         \<and> unat (m_start_trx_id_range s') = unat (m_next_trx_id_range s) div 256 * 256
         \<and> m_end_trx_id_range s' = m_start_trx_id_range s' + 256
         \<and> (unat (m_next_trx_id_range s) < 2 ^ 64 - 256 \<longrightarrow>
              unat (m_end_trx_id_range s') = unat (m_start_trx_id_range s') + 256)
         \<and> m_next_trx_id_range s' = M
         \<and> m_scan_pass s' = m_scan_pass s"
proof -
  let ?n = "m_next_trx_id_range s"
  let ?s' = "s\<lparr> m_start_trx_id_range := ?n - ?n mod 256,
               m_end_trx_id_range := ?n - ?n mod 256 + 256, m_next_trx_id_range := M \<rparr>"
  have eq: "prepare_next_scan M s = Inr ?s'"
    using assms by (simp add: prepare_next_scan_def SCAN_RANGE_def Let_def)
  have "unat (?n - ?n mod 256 + 256) = unat (?n - ?n mod 256) + 256"
    if "unat ?n < 2 ^ 64 - 256"
  proof (rule unat_add_256)
    have "unat ?n div 256 * 256 \<le> unat ?n" by simp
    from this that show "unat (?n - ?n mod 256) < 2 ^ 64 - 256"
      unfolding unat_floor_256 by (rule le_less_trans)
  qed
  with eq show ?thesis by (simp add: unat_floor_256)
qed

text \<open>
  C2, as the code has it. With a hint recorded, \<^verbatim>\<open>prepare_next_scan\<close> keeps the pass, moves
  the start to the hint rounded down to a multiple of 256, sets the end to the start plus
  256 in 64-bit arithmetic (which is 256 above the start when the hint is below
  \<open>2 ^ 64 - 256\<close>) and clears the hint. With no hint recorded, it moves from the initial
  pass to the RW pass and from the RW pass to the MySQL pass with the range reset to
  \<open>[0, 256)\<close>; from the MySQL pass it moves to the done pass and leaves the range as it
  is; in the done pass it is the fatal \<^verbatim>\<open>ut_error\<close>.
\<close>

theorem prepare_next_scan_cases:
  "(m_next_trx_id_range s \<noteq> M \<longrightarrow>
      (\<exists>s'. prepare_next_scan M s = Inr s'
         \<and> unat (m_start_trx_id_range s') = unat (m_next_trx_id_range s) div 256 * 256
         \<and> m_end_trx_id_range s' = m_start_trx_id_range s' + 256
         \<and> (unat (m_next_trx_id_range s) < 2 ^ 64 - 256 \<longrightarrow>
              unat (m_end_trx_id_range s') = unat (m_start_trx_id_range s') + 256)
         \<and> m_next_trx_id_range s' = M
         \<and> m_scan_pass s' = m_scan_pass s))
   \<and> (m_next_trx_id_range s = M \<and> m_scan_pass s = INIT_SCANNING \<longrightarrow>
        prepare_next_scan M s =
          Inr \<lparr> m_scan_pass = SCANNING_RW_TRX_LIST, m_start_trx_id_range = 0,
                m_end_trx_id_range = 256, m_next_trx_id_range = M \<rparr>)
   \<and> (m_next_trx_id_range s = M \<and> m_scan_pass s = SCANNING_RW_TRX_LIST \<longrightarrow>
        prepare_next_scan M s =
          Inr \<lparr> m_scan_pass = SCANNING_MYSQL_TRX_LIST, m_start_trx_id_range = 0,
                m_end_trx_id_range = 256, m_next_trx_id_range = M \<rparr>)
   \<and> (m_next_trx_id_range s = M \<and> m_scan_pass s = SCANNING_MYSQL_TRX_LIST \<longrightarrow>
        prepare_next_scan M s =
          Inr \<lparr> m_scan_pass = DONE_SCANNING,
                m_start_trx_id_range = m_start_trx_id_range s,
                m_end_trx_id_range = m_end_trx_id_range s, m_next_trx_id_range = M \<rparr>)
   \<and> (m_next_trx_id_range s = M \<and> m_scan_pass s = DONE_SCANNING \<longrightarrow>
        prepare_next_scan M s = Inl UT_ERROR)"
  using prepare_next_scan_hint [of s M]
  by (auto simp: prepare_next_scan_def SCAN_RANGE_def)

theorem prepare_next_scan_cases_witness:
  "prepare_next_scan (- 1)
     \<lparr> m_scan_pass = SCANNING_MYSQL_TRX_LIST, m_start_trx_id_range = 512,
       m_end_trx_id_range = 768, m_next_trx_id_range = - 1 \<rparr>
   = Inr \<lparr> m_scan_pass = DONE_SCANNING, m_start_trx_id_range = 512,
          m_end_trx_id_range = 768, m_next_trx_id_range = - 1 \<rparr>
   \<and> prepare_next_scan (- 1)
     \<lparr> m_scan_pass = DONE_SCANNING, m_start_trx_id_range = 512,
       m_end_trx_id_range = 768, m_next_trx_id_range = - 1 \<rparr>
   = Inl UT_ERROR"
  using prepare_next_scan_cases
          [of "\<lparr> m_scan_pass = SCANNING_MYSQL_TRX_LIST, m_start_trx_id_range = 512,
                 m_end_trx_id_range = 768, m_next_trx_id_range = - 1 \<rparr>" "- 1"]
        prepare_next_scan_cases
          [of "\<lparr> m_scan_pass = DONE_SCANNING, m_start_trx_id_range = 512,
                 m_end_trx_id_range = 768, m_next_trx_id_range = - 1 \<rparr>" "- 1"]
  by simp

text \<open>
  C2 as stated fails when the MySQL pass ends: with no hint recorded and the range at
  \<open>[256, 512)\<close>, the state moves to the done pass and the range stays \<open>[256, 512)\<close>; it is
  not reset to \<open>[0, 256)\<close>.
\<close>

theorem prepare_next_scan_done_counterexample:
  "prepare_next_scan (- 1)
     \<lparr> m_scan_pass = SCANNING_MYSQL_TRX_LIST, m_start_trx_id_range = 256,
       m_end_trx_id_range = 512, m_next_trx_id_range = - 1 \<rparr>
   = Inr \<lparr> m_scan_pass = DONE_SCANNING, m_start_trx_id_range = 256,
          m_end_trx_id_range = 512, m_next_trx_id_range = - 1 \<rparr>
   \<and> (256 :: trx_id_t, 512 :: trx_id_t) \<noteq> (0, 256)"
  by (simp add: prepare_next_scan_def)

lemma trx_id_in_range_pass [simp]: "get_pass (snd (trx_id_in_range i s)) = get_pass s"
  by (simp add: trx_id_in_range_def get_pass_def)

lemma trx_id_in_range_range [simp]:
  "m_start_trx_id_range (snd (trx_id_in_range i s)) = m_start_trx_id_range s"
  "m_end_trx_id_range (snd (trx_id_in_range i s)) = m_end_trx_id_range s"
  by (simp_all add: trx_id_in_range_def)

lemma trx_id_in_range_inv:
  "scan_range_inv M s \<Longrightarrow> unat i < 2 ^ 64 - 256 \<Longrightarrow>
   scan_range_inv M (snd (trx_id_in_range i s))"
  by (auto simp: trx_id_in_range_def scan_range_inv_def)

lemma prepare_next_scan_same_pass:
  assumes inv: "scan_range_inv M s" and p: "prepare_next_scan M s = Inr s'"
    and same: "get_pass s' = get_pass s"
  shows "scan_range_inv M s' \<and> m_end_trx_id_range s \<le> m_start_trx_id_range s'"
proof -
  have hint: "m_next_trx_id_range s \<noteq> M"
    using p same
    by (auto simp: prepare_next_scan_def get_pass_def split: if_splits scan_pass.splits)
  let ?n = "m_next_trx_id_range s"
  from inv hint have le: "m_end_trx_id_range s \<le> ?n" and b: "unat ?n < 2 ^ 64 - 256"
    and m: "unat (m_start_trx_id_range s) mod 256 = 0"
    and e: "unat (m_end_trx_id_range s) = unat (m_start_trx_id_range s) + 256"
    by (auto simp: scan_range_inv_def)
  from p hint have s': "s' = s\<lparr> m_start_trx_id_range := ?n - ?n mod 256,
        m_end_trx_id_range := ?n - ?n mod 256 + 256, m_next_trx_id_range := M \<rparr>"
    by (simp add: prepare_next_scan_def SCAN_RANGE_def Let_def)
  have st: "unat (m_start_trx_id_range s') = unat ?n div 256 * 256"
    by (simp add: s' unat_floor_256)
  have "unat ?n div 256 * 256 \<le> unat ?n" by simp
  from this b have sb: "unat (m_start_trx_id_range s') < 2 ^ 64 - 256"
    unfolding st by (rule le_less_trans)
  have en: "unat (m_end_trx_id_range s') = unat (m_start_trx_id_range s') + 256"
    using unat_add_256 [OF sb] by (simp add: s')
  have "unat (m_end_trx_id_range s) mod 256 = 0" using m e by simp
  moreover have "unat (m_end_trx_id_range s) \<le> unat ?n" using le by (simp add: word_le_nat_alt)
  ultimately have "unat (m_end_trx_id_range s) \<le> unat ?n div 256 * 256"
    by (rule floor_256_mono)
  then have "m_end_trx_id_range s \<le> m_start_trx_id_range s'"
    by (simp add: word_le_nat_alt st)
  moreover have "scan_range_inv M s'"
    using st en by (simp add: scan_range_inv_def) (simp add: s')
  ultimately show ?thesis by simp
qed

lemma ranges_in_pass_sorted:
  "scan_range_inv M s \<Longrightarrow> \<forall>i \<in> set (op_ids ops). unat i < 2 ^ 64 - 256 \<Longrightarrow>
     sorted_wrt range_before (ranges_in_pass M ops s)
   \<and> (\<forall>r \<in> set (ranges_in_pass M ops s). range_proper r \<and> m_start_trx_id_range s \<le> fst r)"
proof (induction M ops s rule: ranges_in_pass.induct)
  case (1 M s)
  then show ?case by (simp add: range_proper_def scan_range_inv_def)
next
  case (2 M i ops s)
  then show ?case by (simp add: trx_id_in_range_inv)
next
  case (3 M ops s)
  have here: "range_proper (m_start_trx_id_range s, m_end_trx_id_range s)"
    using 3(2) by (simp add: range_proper_def scan_range_inv_def)
  show ?case
  proof (cases "prepare_next_scan M s")
    case (Inl a)
    then show ?thesis using here by simp
  next
    case (Inr s')
    show ?thesis
    proof (cases "get_pass s' = get_pass s")
      case False
      then show ?thesis using here Inr by simp
    next
      case True
      from prepare_next_scan_same_pass [OF 3(2) Inr True]
      have inv': "scan_range_inv M s'"
        and le: "m_end_trx_id_range s \<le> m_start_trx_id_range s'"
        by simp_all
      from 3(1) [OF Inr True inv'] 3(3)
      have IH: "sorted_wrt range_before (ranges_in_pass M ops s')"
        "\<forall>r \<in> set (ranges_in_pass M ops s').
           range_proper r \<and> m_start_trx_id_range s' \<le> fst r"
        by simp_all
      have lt: "m_start_trx_id_range s < m_end_trx_id_range s"
        using 3(2) by (simp add: scan_range_inv_def word_less_nat_alt)
      have "range_before (m_start_trx_id_range s, m_end_trx_id_range s) r"
        if "r \<in> set (ranges_in_pass M ops s')" for r
      proof -
        from IH(2) that have rp: "range_proper r" and ge: "m_start_trx_id_range s' \<le> fst r"
          by auto
        from rp have "fst r < snd r" by (simp add: range_proper_def word_less_nat_alt)
        with le ge lt show ?thesis by (auto simp: range_before_def)
      qed
      moreover have "m_start_trx_id_range s \<le> fst r"
        if "r \<in> set (ranges_in_pass M ops s')" for r
      proof -
        from IH(2) that have "m_start_trx_id_range s' \<le> fst r" by auto
        with le lt show ?thesis by simp
      qed
      ultimately show ?thesis using IH here Inr True by auto
    qed
  qed
qed

text \<open>
  C3, as the code has it. From a state whose range is well formed, and as long as every
  identifier passed to \<^verbatim>\<open>trx_id_in_range\<close> is below \<open>2 ^ 64 - 256\<close>, the ranges the state
  goes through within one pass are pairwise ordered: a later range starts at or above
  the end of every earlier one, with a strictly larger start and a strictly larger end;
  and every range is 256 wide.
\<close>

theorem ranges_in_pass_increasing:
  assumes "scan_range_inv M s"
    and "\<forall>i \<in> set (op_ids ops). unat i < 2 ^ 64 - 256"
  shows "sorted_wrt range_before (ranges_in_pass M ops s)
       \<and> (\<forall>r \<in> set (ranges_in_pass M ops s). range_proper r)"
  using ranges_in_pass_sorted [OF assms] by simp

theorem ranges_in_pass_increasing_witness:
  "scan_range_inv (- 1)
     \<lparr> m_scan_pass = SCANNING_RW_TRX_LIST, m_start_trx_id_range = 0,
       m_end_trx_id_range = 256, m_next_trx_id_range = - 1 \<rparr>
   \<and> ranges_in_pass (- 1)
       [InRange 5, InRange 1000, InRange 300, Advance,
        InRange 5, InRange 1000, InRange 300, Advance]
       \<lparr> m_scan_pass = SCANNING_RW_TRX_LIST, m_start_trx_id_range = 0,
         m_end_trx_id_range = 256, m_next_trx_id_range = - 1 \<rparr>
     = [(0, 256), (256, 512), (768, 1024)]
   \<and> sorted_wrt range_before [(0, 256), (256, 512), (768, 1024)]"
proof -
  let ?s = "\<lparr> m_scan_pass = SCANNING_RW_TRX_LIST, m_start_trx_id_range = 0,
              m_end_trx_id_range = 256, m_next_trx_id_range = - 1 \<rparr>"
  let ?ops = "[InRange 5, InRange 1000, InRange 300, Advance,
               InRange 5, InRange 1000, InRange 300, Advance]"
  have inv: "scan_range_inv (- 1) ?s" by (simp add: scan_range_inv_def)
  have ids: "\<forall>i \<in> set (op_ids ?ops). unat i < 2 ^ 64 - 256" by simp
  have run: "ranges_in_pass (- 1) ?ops ?s = [(0, 256), (256, 512), (768, 1024)]"
    by (simp add: trx_id_in_range_def prepare_next_scan_def SCAN_RANGE_def get_pass_def)
  from ranges_in_pass_increasing [OF inv ids]
  have "sorted_wrt range_before (ranges_in_pass (- 1) ?ops ?s)" by simp
  with inv run show ?thesis by simp
qed

text \<open>
  C3 as stated fails at the top of the 64-bit range. With \<^verbatim>\<open>TRX_ID_MAX\<close> the largest
  64-bit value and the identifiers 5 and \<open>2 ^ 64 - 10\<close> in the list, the second range is
  \<open>[2 ^ 64 - 256, 0)\<close>: its end has wrapped around. The identifier 5 is then at or above
  that end and becomes the hint, and the third range is \<open>[0, 256)\<close> again, the first one.
\<close>

theorem ranges_in_pass_wrap_counterexample:
  "ranges_in_pass (- 1)
     [InRange 5, InRange 18446744073709551606, Advance, InRange 5, Advance]
     \<lparr> m_scan_pass = SCANNING_RW_TRX_LIST, m_start_trx_id_range = 0,
       m_end_trx_id_range = 256, m_next_trx_id_range = - 1 \<rparr>
   = [(0, 256), (18446744073709551360, 0), (0, 256)]
   \<and> \<not> sorted_wrt (\<lambda>r r'. fst r < fst r') 
         [(0 :: trx_id_t, 256 :: trx_id_t), (18446744073709551360, 0), (0, 256)]"
  by (simp add: trx_id_in_range_def prepare_next_scan_def SCAN_RANGE_def get_pass_def)

lemma prepare_next_scan_pass:
  "prepare_next_scan M s = Inr s' \<Longrightarrow>
     later_passes (get_pass s') = later_passes (get_pass s)
   \<or> later_passes (get_pass s') = tl (later_passes (get_pass s))"
  by (auto simp: prepare_next_scan_def get_pass_def Let_def split: if_splits scan_pass.splits)

lemma passes_observed_hd:
  "passes_observed M ops s = get_pass s # tl (passes_observed M ops s)"
  by (induction M ops s rule: passes_observed.induct) (auto split: sum.splits)

lemma later_passes_hd: "later_passes p = p # tl (later_passes p)"
  by (cases p) auto

lemma passes_observed_prefix:
  "prefix (remdups_adj (passes_observed M ops s)) (later_passes (get_pass s))"
proof (induction M ops s rule: passes_observed.induct)
  case (1 M s)
  then show ?case by (cases "get_pass s") auto
next
  case (2 M i ops s)
  obtain r where r: "passes_observed M ops (snd (trx_id_in_range i s)) = get_pass s # r"
    using passes_observed_hd [of M ops "snd (trx_id_in_range i s)"] by auto
  with 2 show ?case by simp
next
  case (3 M ops s)
  show ?case
  proof (cases "prepare_next_scan M s")
    case (Inl a)
    then show ?thesis by (cases "get_pass s") auto
  next
    case (Inr s')
    from 3 [OF Inr]
    have IH: "prefix (remdups_adj (passes_observed M ops s')) (later_passes (get_pass s'))" .
    obtain r where r: "passes_observed M ops s' = get_pass s' # r"
      using passes_observed_hd by blast
    from prepare_next_scan_pass [OF Inr] show ?thesis
    proof
      assume "later_passes (get_pass s') = later_passes (get_pass s)"
      then have "get_pass s' = get_pass s" by (cases "get_pass s'"; cases "get_pass s") auto
      with IH Inr r show ?thesis by simp
    next
      assume a: "later_passes (get_pass s') = tl (later_passes (get_pass s))"
      then have ne: "get_pass s' \<noteq> get_pass s"
        by (cases "get_pass s'"; cases "get_pass s") auto
      have "later_passes (get_pass s) = get_pass s # later_passes (get_pass s')"
        using a later_passes_hd [of "get_pass s"] by simp
      with IH Inr r ne show ?thesis by simp
    qed
  qed
qed

text \<open>
  C4. Over any sequence of range queries and \<^verbatim>\<open>prepare_next_scan\<close> calls on a freshly
  constructed scan state, the passes observed, with repetitions of the same pass
  collapsed, are an initial part of not-started, RW list, MySQL list, done: no pass is
  entered twice and none is entered out of order. A session that ends in the done pass
  has gone through exactly these four, in this order.
\<close>

theorem passes_observed_in_order:
  "prefix (remdups_adj (passes_observed M ops (Innodb_trx_scan_state M)))
      [INIT_SCANNING, SCANNING_RW_TRX_LIST, SCANNING_MYSQL_TRX_LIST, DONE_SCANNING]
   \<and> (last (passes_observed M ops (Innodb_trx_scan_state M)) = DONE_SCANNING \<longrightarrow>
       remdups_adj (passes_observed M ops (Innodb_trx_scan_state M)) =
        [INIT_SCANNING, SCANNING_RW_TRX_LIST, SCANNING_MYSQL_TRX_LIST, DONE_SCANNING])"
proof -
  let ?ps = "passes_observed M ops (Innodb_trx_scan_state M)"
  let ?all = "[INIT_SCANNING, SCANNING_RW_TRX_LIST, SCANNING_MYSQL_TRX_LIST, DONE_SCANNING]"
  have p: "prefix (remdups_adj ?ps) ?all"
    using passes_observed_prefix [of M ops "Innodb_trx_scan_state M"]
    by (simp add: get_pass_def Innodb_trx_scan_state_def)
  have ne: "?ps \<noteq> []"
    using passes_observed_hd [of M ops "Innodb_trx_scan_state M"] by auto
  have l: "last (remdups_adj ?ps) = last ?ps" by simp
  have "remdups_adj ?ps = ?all" if d: "last ?ps = DONE_SCANNING"
  proof -
    from p obtain zs where zs: "?all = remdups_adj ?ps @ zs"
      by (auto simp: prefix_def)
    have "remdups_adj ?ps \<noteq> []" using ne by simp
    with zs l d show ?thesis
      by (cases "remdups_adj ?ps" rule: rev_cases)
         (auto simp: append_eq_Cons_conv Cons_eq_append_conv)
  qed
  with p show ?thesis by blast
qed

theorem passes_observed_in_order_witness:
  "passes_observed (- 1) [Advance, InRange 300, Advance, InRange 300, Advance, Advance]
     (Innodb_trx_scan_state (- 1))
   = [INIT_SCANNING, SCANNING_RW_TRX_LIST, SCANNING_RW_TRX_LIST, SCANNING_RW_TRX_LIST,
      SCANNING_RW_TRX_LIST, SCANNING_MYSQL_TRX_LIST, DONE_SCANNING]
   \<and> remdups_adj
       (passes_observed (- 1) [Advance, InRange 300, Advance, InRange 300, Advance, Advance]
          (Innodb_trx_scan_state (- 1)))
     = [INIT_SCANNING, SCANNING_RW_TRX_LIST, SCANNING_MYSQL_TRX_LIST, DONE_SCANNING]"
proof -
  let ?ops = "[Advance, InRange 300, Advance, InRange 300, Advance, Advance]"
  have run: "passes_observed (- 1) ?ops (Innodb_trx_scan_state (- 1))
     = [INIT_SCANNING, SCANNING_RW_TRX_LIST, SCANNING_RW_TRX_LIST, SCANNING_RW_TRX_LIST,
        SCANNING_RW_TRX_LIST, SCANNING_MYSQL_TRX_LIST, DONE_SCANNING]"
    by (simp add: Innodb_trx_scan_state_def trx_id_in_range_def prepare_next_scan_def
          SCAN_RANGE_def get_pass_def)
  then have "last (passes_observed (- 1) ?ops (Innodb_trx_scan_state (- 1))) = DONE_SCANNING"
    by simp
  with passes_observed_in_order [of "- 1" ?ops] run show ?thesis by blast
qed

section \<open>Lock ids\<close>

lemma digit_char_props:
  "d < 10 \<Longrightarrow> isdigit (digit_char d) \<and> digit_val (digit_char d) = d
      \<and> \<not> isspace (digit_char d) \<and> digit_char d \<noteq> CHR ''-'' \<and> digit_char d \<noteq> CHR ''+''"
proof -
  assume "d < 10"
  then have "d \<in> {0,1,2,3,4,5,6,7,8,9}" by auto
  then show ?thesis
    by (auto simp: digit_char_def isdigit_def digit_val_def isspace_def)
qed

lemma dec_digits: "c \<in> set (dec n) \<Longrightarrow> isdigit c"
proof (induction n rule: dec.induct)
  case (1 n)
  show ?case
  proof (cases "n < 10")
    case True
    with 1(2) show ?thesis by (simp add: dec.simps [of n] digit_char_props)
  next
    case False
    with 1 show ?thesis by (auto simp: dec.simps [of n] digit_char_props)
  qed
qed

lemma dec_nonempty: "dec n \<noteq> []"
  by (subst dec.simps) simp

lemma dec_hd: "\<exists>c cs. dec n = c # cs \<and> isdigit c \<and> \<not> isspace c \<and> c \<noteq> CHR ''-'' \<and> c \<noteq> CHR ''+''"
proof (induction n rule: dec.induct)
  case (1 n)
  show ?case
  proof (cases "n < 10")
    case True
    then show ?thesis by (simp add: dec.simps [of n] digit_char_props)
  next
    case False
    with 1 show ?thesis by (subst dec.simps) auto
  qed
qed

lemma dec_value: "foldl (\<lambda>a c. a * 10 + digit_val c) acc (dec n) = acc * 10 ^ length (dec n) + n"
proof (induction n arbitrary: acc rule: dec.induct)
  case (1 n)
  show ?case
  proof (cases "n < 10")
    case True
    then show ?thesis by (simp add: dec.simps [of n] digit_char_props)
  next
    case False
    then have "foldl (\<lambda>a c. a * 10 + digit_val c) acc (dec n)
      = (acc * 10 ^ length (dec (n div 10)) + n div 10) * 10 + n mod 10"
      using 1 [OF False] by (simp add: dec.simps [of n] digit_char_props)
    also have "\<dots> = acc * 10 ^ length (dec n) + n"
      using False by (simp add: dec.simps [of n] algebra_simps)
    finally show ?thesis .
  qed
qed

lemma dec_length: "0 < k \<Longrightarrow> n < 10 ^ k \<Longrightarrow> length (dec n) \<le> k"
proof (induction n arbitrary: k rule: dec.induct)
  case (1 n)
  show ?case
  proof (cases "n < 10")
    case True
    then show ?thesis using 1(2) by (simp add: dec.simps [of n])
  next
    case False
    obtain j where kj: "k = Suc j" using 1(2) by (cases k) auto
    have "0 < j"
    proof (rule ccontr)
      assume "\<not> 0 < j"
      with kj 1(3) False show False by simp
    qed
    note k = kj this
    have "n div 10 < 10 ^ j" using 1(3) k by (simp add: less_mult_imp_div_less)
    from 1(1) [OF False k(2) this] show ?thesis using False k by (simp add: dec.simps [of n])
  qed
qed

lemma strtol_digits_run:
  "\<forall>c \<in> set xs. isdigit c \<Longrightarrow>
   strtol_digits acc (xs @ ys) = strtol_digits (foldl (\<lambda>a c. a * 10 + digit_val c) acc xs) ys"
  by (induction xs arbitrary: acc) auto

lemma strtol_digits_stop: "\<not> isdigit (deref ys) \<Longrightarrow> strtol_digits acc ys = (acc, ys)"
  by (cases ys) (auto simp: deref_def)

lemma strtol_dec:
  assumes "\<not> isdigit (deref rest)" and "n < 2 ^ 63"
  shows "strtol (dec n @ rest) = (int n, rest)"
proof -
  obtain c cs where d: "dec n = c # cs" and c: "isdigit c" "\<not> isspace c" "c \<noteq> CHR ''-''" "c \<noteq> CHR ''+''"
    using dec_hd by blast
  have "strtol_digits 0 (dec n @ rest) = (n, rest)"
    using strtol_digits_run [of "dec n" 0 rest] dec_digits [of _ n] dec_value [of 0 n]
      strtol_digits_stop [OF assms(1)] by simp
  moreover have "max LONG_MIN (min LONG_MAX (int n)) = int n"
    using assms(2) by (simp add: LONG_MIN_def LONG_MAX_def)
  ultimately show ?thesis
    using c by (simp add: strtol_def d [symmetric] Let_def) (simp add: d)
qed

lemma dec_length_64: "length (dec (unat (w :: 64 word))) \<le> 20"
proof (rule dec_length)
  have "unat w < 2 ^ 64" using unsigned_less [of w] by simp
  also have "(2::nat) ^ 64 < 10 ^ 20" by simp
  finally show "unat w < 10 ^ 20" .
qed simp

lemma dec_length_32: "length (dec (unat (w :: 32 word))) \<le> 10"
proof (rule dec_length)
  have "unat w < 2 ^ 32" using unsigned_less [of w] by simp
  also have "(2::nat) ^ 32 < 10 ^ 10" by simp
  finally show "unat w < 10 ^ 10" .
qed simp

lemma snprintf_fits: "length s < n \<Longrightarrow> snprintf n s = s"
  by (simp add: snprintf_def)

lemma print_table_lock_id_fits:
  assumes "64 \<le> lock_id_size"
  shows "print_table_lock_id lock lock_id_size =
     dec (unat (lock_get_trx_id lock)) @ '':'' @ dec (unat (lock_get_table_id lock))"
  unfolding print_table_lock_id_def
  using dec_length_64 [of "lock_get_trx_id lock"] dec_length_64 [of "lock_get_table_id lock"] assms
  by (intro snprintf_fits) simp

lemma print_record_lock_id_fits:
  assumes "64 \<le> lock_id_size"
  shows "print_record_lock_id lock heap_no lock_id_size =
     dec (unat (lock_get_trx_id lock)) @ '':'' @ dec (unat (lock_rec_get_space_id lock))
        @ '':'' @ dec (unat (lock_rec_get_page_no lock)) @ '':'' @ dec (unat heap_no)"
  unfolding print_record_lock_id_def
  using dec_length_64 [of "lock_get_trx_id lock"] dec_length_64 [of heap_no]
    dec_length_32 [of "lock_rec_get_space_id lock"] dec_length_32 [of "lock_rec_get_page_no lock"] assms
  by (intro snprintf_fits) simp

lemma unat_32_below_long_max: "unat (w :: 32 word) < 2 ^ 63"
proof -
  have "unat w < 2 ^ 32" using unsigned_less [of w] by simp
  also have "(2::nat) ^ 32 < 2 ^ 63" by simp
  finally show ?thesis .
qed

lemma scan_table_id:
  assumes "a < 2 ^ 63" "b < 2 ^ 63"
  shows "scan_lock_id ext (dec a @ CHR '':'' # dec b) =
     Some \<lparr> id_record_type = LOCK_TABLE, id_trx_id = of_nat a,
                 id_table_id = of_nat b, id_space_id = SPACE_UNKNOWN ext,
                 id_page_id = FIL_NULL ext, id_heap_id = ULINT_UNDEFINED ext \<rparr>"
proof -
  have 1: "strtol (dec a @ CHR '':'' # dec b) = (int a, CHR '':'' # dec b)"
    using assms by (intro strtol_dec) (simp_all add: deref_def isdigit_def)
  have 2: "strtol (dec b) = (int b, [])"
    using strtol_dec [of "[]" b] assms by (simp add: deref_def isdigit_def)
  show ?thesis
    by (simp add: scan_lock_id_def 1 2 deref_def)
qed

lemma scan_record_id:
  assumes "a < 2 ^ 63" "b < 2 ^ 63" "c < 2 ^ 63" "d < 2 ^ 63"
  shows "scan_lock_id ext (dec a @ CHR '':'' # dec b @ CHR '':'' # dec c @ CHR '':'' # dec d) =
     Some \<lparr> id_record_type = LOCK_REC, id_trx_id = of_nat a,
                 id_table_id = 0, id_space_id = of_nat b,
                 id_page_id = of_nat c, id_heap_id = of_nat d \<rparr>"
proof -
  have 1: "strtol (dec a @ CHR '':'' # dec b @ CHR '':'' # dec c @ CHR '':'' # dec d)
       = (int a, CHR '':'' # dec b @ CHR '':'' # dec c @ CHR '':'' # dec d)"
    using assms by (intro strtol_dec) (simp_all add: deref_def isdigit_def)
  have 2: "strtol (dec b @ CHR '':'' # dec c @ CHR '':'' # dec d) = (int b, CHR '':'' # dec c @ CHR '':'' # dec d)"
    using assms by (intro strtol_dec) (simp_all add: deref_def isdigit_def)
  have 3: "strtol (dec c @ CHR '':'' # dec d) = (int c, CHR '':'' # dec d)"
    using assms by (intro strtol_dec) (simp_all add: deref_def isdigit_def)
  have 4: "strtol (dec d) = (int d, [])"
    using strtol_dec [of "[]" d] assms by (simp add: deref_def isdigit_def)
  show ?thesis
    by (simp add: scan_lock_id_def 1 2 3 4 deref_def)
qed

text \<open>
  C5, as the code has it. With a buffer of at least 64 bytes and a transaction id below
  \<open>2 ^ 63\<close>, scanning the printed lock id gives back the kind and the key: for a table
  lock with a table id below \<open>2 ^ 63\<close>, the transaction id and the table id; for a record
  lock printed with a heap number below \<open>2 ^ 63\<close>, the transaction id, the space id, the
  page number and the heap number.
\<close>

theorem lock_id_round_trip:
  assumes "64 \<le> lock_id_size" and "unat (lock_get_trx_id lock) < 2 ^ 63"
  shows "(lock_get_type lock = LOCK_TABLE \<and> unat (lock_get_table_id lock) < 2 ^ 63 \<longrightarrow>
           (\<exists>s. print_lock_id lock heap_no lock_id_size = Inr s
              \<and> scan_lock_id ext s =
                  Some \<lparr> id_record_type = LOCK_TABLE, id_trx_id = lock_get_trx_id lock,
                         id_table_id = lock_get_table_id lock, id_space_id = SPACE_UNKNOWN ext,
                         id_page_id = FIL_NULL ext, id_heap_id = ULINT_UNDEFINED ext \<rparr>))
       \<and> (lock_get_type lock = LOCK_REC \<and> unat heap_no < 2 ^ 63 \<longrightarrow>
           (\<exists>s. print_lock_id lock heap_no lock_id_size = Inr s
              \<and> scan_lock_id ext s =
                  Some \<lparr> id_record_type = LOCK_REC, id_trx_id = lock_get_trx_id lock,
                         id_table_id = 0, id_space_id = lock_rec_get_space_id lock,
                         id_page_id = lock_rec_get_page_no lock, id_heap_id = heap_no \<rparr>))"
  using assms unat_32_below_long_max [of "lock_rec_get_space_id lock"]
    unat_32_below_long_max [of "lock_rec_get_page_no lock"]
  by (auto simp: print_lock_id_def print_table_lock_id_fits print_record_lock_id_fits
        scan_table_id scan_record_id)

theorem lock_id_round_trip_witness:
  "(\<exists>s. print_lock_id (table_lock 1 7 5) 0 81 = Inr s
      \<and> scan_lock_id (example_extern []) s =
          Some \<lparr> id_record_type = LOCK_TABLE, id_trx_id = 7, id_table_id = 5,
                 id_space_id = - 1, id_page_id = - 1,
                 id_heap_id = - 1 \<rparr>)
   \<and> (\<exists>s. print_lock_id (record_lock 2 7 3 4 [False, False, True]) 2 81 = Inr s
      \<and> scan_lock_id (example_extern []) s =
          Some \<lparr> id_record_type = LOCK_REC, id_trx_id = 7, id_table_id = 0,
                 id_space_id = 3, id_page_id = 4, id_heap_id = 2 \<rparr>)"
  using lock_id_round_trip
          [where lock_id_size = 81 and lock = "table_lock 1 7 5" and heap_no = 0
             and ext = "example_extern []"]
    lock_id_round_trip
          [where lock_id_size = 81 and lock = "record_lock 2 7 3 4 [False, False, True]"
             and heap_no = 2 and ext = "example_extern []"]
  by (simp add: table_lock_def record_lock_def)
     (simp add: example_extern_def)

text \<open>
  C5 as stated fails for a transaction id of \<open>2 ^ 63\<close>: the id is printed as an unsigned
  number, \<^verbatim>\<open>strtol\<close> reads a \<^verbatim>\<open>long\<close> and stops at \<^verbatim>\<open>LONG_MAX\<close>, and the transaction id
  scanned is \<open>2 ^ 63 - 1\<close>.
\<close>

theorem lock_id_round_trip_counterexample:
  "print_lock_id (table_lock 1 9223372036854775808 5) 0 81 = Inr ''9223372036854775808:5''
   \<and> scan_lock_id (example_extern []) ''9223372036854775808:5'' =
       Some \<lparr> id_record_type = LOCK_TABLE, id_trx_id = 9223372036854775807, id_table_id = 5,
              id_space_id = - 1, id_page_id = - 1,
              id_heap_id = - 1 \<rparr>
   \<and> lock_get_trx_id (table_lock 1 9223372036854775808 5) \<noteq> 9223372036854775807"
  by (simp add: print_lock_id_def print_table_lock_id_def table_lock_def snprintf_def
        dec.simps digit_char_def scan_lock_id_def strtol_def deref_def isspace_def
        isdigit_def digit_val_def LONG_MAX_def LONG_MIN_def example_extern_def)

text \<open>
  C6 is not what the code does. After the second number \<^verbatim>\<open>scan_lock_id\<close> checks only
  for the end of the string and then steps over whatever character is there, so
  \<open>1:2x3:4\<close> is scanned as the record lock \<open>1:2:3:4\<close>; and a field with no digit in it
  is read as 0, so \<open>:\<close> is scanned as the table lock \<open>0:0\<close>.
\<close>

theorem scan_lock_id_accepts_malformed:
  "scan_lock_id (example_extern []) ''1:2x3:4'' =
     Some \<lparr> id_record_type = LOCK_REC, id_trx_id = 1, id_table_id = 0, id_space_id = 2,
            id_page_id = 3, id_heap_id = 4 \<rparr>
   \<and> scan_lock_id (example_extern []) '':'' =
     Some \<lparr> id_record_type = LOCK_TABLE, id_trx_id = 0, id_table_id = 0,
            id_space_id = - 1, id_page_id = - 1,
            id_heap_id = - 1 \<rparr>"
  by (simp add: scan_lock_id_def strtol_def deref_def isspace_def isdigit_def digit_val_def
        LONG_MAX_def LONG_MIN_def example_extern_def)

section \<open>The example data\<close>

lemma record_lock_sel:
  "lock_ptr (record_lock p t s g b) = p"
  "lock_get_trx_id (record_lock p t s g b) = t"
  "lock_get_type (record_lock p t s g b) = LOCK_REC"
  "lock_rec_get_space_id (record_lock p t s g b) = s"
  "lock_rec_get_page_no (record_lock p t s g b) = g"
  "lock_rec_bitmap (record_lock p t s g b) = b"
  "lock_get_psi_thread_id (record_lock p t s g b) = 1"
  "lock_get_psi_event_id (record_lock p t s g b) = 1"
  "lock_get_table_name (record_lock p t s g b) = ''test/t1''"
  "lock_rec_get_index_name (record_lock p t s g b) = ''PRIMARY''"
  "lock_get_mode_str (record_lock p t s g b) = ''X''"
  "lock_get_type_str (record_lock p t s g b) = ''RECORD''"
  by (simp_all add: record_lock_def)

lemma table_lock_sel:
  "lock_ptr (table_lock p t tb) = p"
  "lock_get_trx_id (table_lock p t tb) = t"
  "lock_get_type (table_lock p t tb) = LOCK_TABLE"
  "lock_get_table_id (table_lock p t tb) = tb"
  "lock_get_psi_thread_id (table_lock p t tb) = 1"
  "lock_get_psi_event_id (table_lock p t tb) = 1"
  "lock_get_table_name (table_lock p t tb) = ''test/t1''"
  "lock_get_mode_str (table_lock p t tb) = ''IX''"
  "lock_get_type_str (table_lock p t tb) = ''TABLE''"
  by (simp_all add: table_lock_def)

lemma example_trx_sel:
  "trx_is_started (example_trx t locks w) = True"
  "trx_id (example_trx t locks w) = t"
  "read_only (example_trx t locks w) = False"
  "trx_get_id_for_print (example_trx t locks w) = t"
  "que_state (example_trx t locks w) = (if w = None then TRX_QUE_RUNNING else TRX_QUE_LOCK_WAIT)"
  "wait_lock (example_trx t locks w) = w"
  "trx_locks (example_trx t locks w) = locks"
  by (simp_all add: example_trx_def)

lemma example_extern_sel:
  "TRX_ID_MAX (example_extern q) = - 1"
  "TRX_I_S_LOCK_ID_MAX_LEN (example_extern q) = 80"
  "ULINT_UNDEFINED (example_extern q) = - 1"
  "SPACE_UNKNOWN (example_extern q) = - 1"
  "FIL_NULL (example_extern q) = - 1"
  "parse_table_path (example_extern q) path = ([], path, [], [])"
  "lock_has_to_wait (example_extern q) l l' = (lock_get_trx_id l \<noteq> lock_get_trx_id l')"
  "lock_queue_iterator_get_prev (example_extern q) l = q"
  "p_s_fill_lock_data (example_extern q) l h = []"
  by (simp_all add: example_extern_def)

lemma accept_all_sel:
  "accept_engine accept_all e = True"
  "accept_transaction_id accept_all t = True"
  "accept_thread_id_event_id accept_all th ev = True"
  "accept_object accept_all ob = True"
  "accept_lock_id accept_all i = True"
  by (simp_all add: accept_all_def)

lemma accept_all_waits_sel:
  "wait_accept_engine accept_all_waits e = True"
  "accept_requesting_transaction_id accept_all_waits t = True"
  "accept_blocking_transaction_id accept_all_waits t = True"
  "accept_requesting_thread_id_event_id accept_all_waits th ev = True"
  "accept_blocking_thread_id_event_id accept_all_waits th ev = True"
  "accept_requesting_lock_id accept_all_waits i = True"
  "accept_blocking_lock_id accept_all_waits i = True"
  by (simp_all add: accept_all_waits_def)

lemmas example_sel = record_lock_sel table_lock_sel example_trx_sel example_extern_sel
  accept_all_sel accept_all_waits_sel

lemma dec_examples:
  "dec 5 = ''5''" "dec 10 = ''10''" "dec 11 = ''11''" "dec 3 = ''3''" "dec 4 = ''4''"
  "dec 7 = ''7''" "dec 8 = ''8''"
  by (simp_all add: dec.simps digit_char_def)

lemma example_requesting_set_bit:
  "lock_rec_find_set_bit ext (record_lock p t s g [False, False, False, False, False, True]) = 5"
  by (simp add: lock_rec_find_set_bit_def lock_rec_set_bits_def record_lock_sel upt_rec)

lemma example_blocking_set_bit:
  "lock_rec_find_set_bit ext (record_lock p t s g [False, False, True, False, False, True]) = 2"
  by (simp add: lock_rec_find_set_bit_def lock_rec_set_bits_def record_lock_sel upt_rec)

lemma scan_lock_id_examples:
  "scan_lock_id ext ''abc'' = None" "scan_lock_id ext ''1:2:3'' = None"
  "scan_lock_id ext ''1:2'' =
     Some \<lparr> id_record_type = LOCK_TABLE, id_trx_id = 1, id_table_id = 2,
            id_space_id = SPACE_UNKNOWN ext, id_page_id = FIL_NULL ext,
            id_heap_id = ULINT_UNDEFINED ext \<rparr>"
  by (simp_all add: scan_lock_id_def strtol_def deref_def isspace_def isdigit_def
        digit_val_def LONG_MAX_def LONG_MIN_def)

lemma example_wait_scan:
  "Innodb_data_lock_wait_iterator_scan_trx
     (example_extern [record_lock 2 11 3 4 [False, False, True, False, False, True],
                      record_lock 3 10 3 4 [False, True]])
     accept_all_waits
     (example_trx 10 [record_lock 3 10 3 4 [False, True],
                      record_lock 1 10 3 4 [False, False, False, False, False, True]]
        (Some (record_lock 1 10 3 4 [False, False, False, False, False, True])))
     False no_filter no_filter
   = Inr [\<lparr> wait_row_engine = ''INNODB'',
            requesting_engine_lock_id = ''10:3:4:5'',
            requesting_trx_id = 10,
            requesting_thread_id = 1,
            requesting_event_id = 1,
            requesting_identity = 1,
            blocking_engine_lock_id = ''11:3:4:5'',
            blocking_trx_id = 11,
            blocking_thread_id = 1,
            blocking_event_id = 1,
            blocking_identity = 2 \<rparr>]"
  by (simp add: Innodb_data_lock_wait_iterator_scan_trx_def example_sel example_requesting_set_bit
        print_lock_id_def print_record_lock_id_def snprintf_def dec_examples
        add_lock_wait_row_def g_engine_def)

lemma example_wait_lock_ids:
  "scan_lock_id (example_extern q) ''10:3:4:5'' =
     Some \<lparr> id_record_type = LOCK_REC, id_trx_id = 10, id_table_id = 0, id_space_id = 3,
            id_page_id = 4, id_heap_id = 5 \<rparr>"
  "scan_lock_id (example_extern q) ''11:3:4:5'' =
     Some \<lparr> id_record_type = LOCK_REC, id_trx_id = 11, id_table_id = 0, id_space_id = 3,
            id_page_id = 4, id_heap_id = 5 \<rparr>"
  "scan_lock_id (example_extern q) ''11:3:4:2'' =
     Some \<lparr> id_record_type = LOCK_REC, id_trx_id = 11, id_table_id = 0, id_space_id = 3,
            id_page_id = 4, id_heap_id = 2 \<rparr>"
  by (simp_all add: scan_lock_id_def strtol_def deref_def isspace_def isdigit_def
        digit_val_def LONG_MAX_def LONG_MIN_def)

lemma example_own_set_bit:
  "lock_rec_find_set_bit ext (record_lock p t s g [False, True]) = 1"
  by (simp add: lock_rec_find_set_bit_def lock_rec_set_bits_def record_lock_sel upt_rec)

section \<open>The data-lock iterator: lock status\<close>

text \<open>
  C1 is not what the code does. \<^verbatim>\<open>lock_status_str\<close> is set to \<open>GRANTED\<close> once, before the
  loop over the locks, and to \<open>WAITING\<close> at the lock the transaction waits for; nothing
  sets it back. Transaction 10 holds the table locks 1 and 2, in this order, and waits
  for lock 1: the row of lock 2, which is not the awaited lock, is reported \<open>WAITING\<close>
  too.
\<close>

theorem scan_trx_status_after_wait_lock:
  "Innodb_data_lock_iterator_scan_trx (example_extern []) accept_all False
     (example_trx 10 [table_lock 1 10 7, table_lock 2 10 8] (Some (table_lock 1 10 7)))
     False no_filter
   = Inr [add_lock_row ''10:7'' 10 (table_lock 1 10 7) ([], ''test/t1'', [], []) None
            ''WAITING'' None,
          add_lock_row ''10:8'' 10 (table_lock 2 10 8) ([], ''test/t1'', [], []) None
            ''WAITING'' None]"
  by (simp add: Innodb_data_lock_iterator_scan_trx_def example_sel
       lock_eq_wait_lock_def print_table_lock_id_def snprintf_def dec_examples Let_def)

section \<open>The data-lock-wait iterator\<close>

lemma print_lock_id_known:
  "lock_get_type lock \<noteq> LOCK_TYPE_OTHER \<Longrightarrow>
   print_lock_id lock heap_no n = Inr (lock_id_of lock heap_no n)"
  by (cases "lock_get_type lock") (simp_all add: print_lock_id_def lock_id_of_def)

lemma data_lock_wait_filter_known:
  "lock_get_type lock \<noteq> LOCK_TYPE_OTHER \<Longrightarrow> \<exists>b. data_lock_wait_filter ext lock f = Inr b"
  by (cases "lock_get_type lock") (auto simp: data_lock_wait_filter_def)

lemma scan_trx_queue_rows:
  assumes "\<forall>curr \<in> set queue. lock_get_type curr \<noteq> LOCK_TYPE_OTHER"
  shows "scan_trx_queue ext container with_filter fb wl rtrx rid (wait_heap_no ext wl) queue =
     Inr (map (\<lambda>curr. add_lock_wait_row rid rtrx wl
                 (lock_id_of curr (wait_heap_no ext wl) (TRX_I_S_LOCK_ID_MAX_LEN ext + 1)) curr)
           (filter (\<lambda>curr. lock_has_to_wait ext wl curr
                      \<and> blocking_accepted ext container with_filter fb wl curr) queue))"
  using assms
proof (induction queue)
  case Nil
  then show ?case by simp
next
  case (Cons curr queue)
  then have known: "lock_get_type curr \<noteq> LOCK_TYPE_OTHER" by simp
  obtain b where b: "data_lock_wait_filter ext curr fb = Inr b"
    using data_lock_wait_filter_known [OF known] by blast
  from Cons have IH:
    "scan_trx_queue ext container with_filter fb wl rtrx rid (wait_heap_no ext wl) queue =
     Inr (map (\<lambda>curr. add_lock_wait_row rid rtrx wl
                 (lock_id_of curr (wait_heap_no ext wl) (TRX_I_S_LOCK_ID_MAX_LEN ext + 1)) curr)
           (filter (\<lambda>curr. lock_has_to_wait ext wl curr
                      \<and> blocking_accepted ext container with_filter fb wl curr) queue))"
    by simp
  show ?case
    using IH b
    by (cases with_filter; cases b)
       (simp_all add: blocking_accepted_def print_lock_id_known [OF known])
qed

lemma scan_trx_wait_rows:
  assumes "que_state trx = TRX_QUE_LOCK_WAIT" and "wait_lock trx = Some wl"
    and "lock_get_type wl \<noteq> LOCK_TYPE_OTHER"
    and "\<forall>curr \<in> set (lock_queue_iterator_get_prev ext wl).
           lock_get_type curr \<noteq> LOCK_TYPE_OTHER"
  shows "Innodb_data_lock_wait_iterator_scan_trx ext container trx with_filter fr fb =
     Inr (map (\<lambda>curr. add_lock_wait_row
                 (lock_id_of wl (wait_heap_no ext wl) (TRX_I_S_LOCK_ID_MAX_LEN ext + 1))
                 (trx_get_id_for_print trx) wl
                 (lock_id_of curr (wait_heap_no ext wl) (TRX_I_S_LOCK_ID_MAX_LEN ext + 1)) curr)
           (filter (\<lambda>curr. requesting_accepted ext container trx with_filter fr wl
                      \<and> lock_has_to_wait ext wl curr
                      \<and> blocking_accepted ext container with_filter fb wl curr)
              (lock_queue_iterator_get_prev ext wl)))"
proof -
  obtain b where b: "data_lock_wait_filter ext wl fr = Inr b"
    using data_lock_wait_filter_known [OF assms(3)] by blast
  show ?thesis
    unfolding Innodb_data_lock_wait_iterator_scan_trx_def wait_heap_no_def [symmetric] Let_def
    using b scan_trx_queue_rows [OF assms(4), of ext container with_filter fb wl]
    by (cases with_filter; cases b)
       (simp_all add: assms(1,2) requesting_accepted_def print_lock_id_known [OF assms(3)])
qed

text \<open>
  C7 is not what the code does when it filters. Transaction 10 waits for a record lock on
  heap number 5 of page 4 in space 3. Transaction 11 holds a record lock on the same page
  with the bits 2 and 5 set, the lock has to wait for it, and the container accepts
  everything. The unfiltered scan adds the row with the lock ids \<open>10:3:4:5\<close> and
  \<open>11:3:4:5\<close>: the blocking id is printed with the heap number of the requesting lock.
  The filter of the loop compares the filter's heap number with the blocking lock's own
  first set bit, which is 2: \<^verbatim>\<open>fetch\<close> with the pair of ids of that row takes the mutexes
  and adds no row, although the conflict holds, the callbacks accept and the blocking
  lock covers heap number 5; \<^verbatim>\<open>fetch\<close> with \<open>11:3:4:2\<close> as the blocking id adds the row,
  which carries the blocking id \<open>11:3:4:5\<close>.
\<close>

theorem fetch_emitted_wait_pair:
  "Innodb_data_lock_wait_iterator_scan_trx
     (example_extern [record_lock 2 11 3 4 [False, False, True, False, False, True],
                      record_lock 3 10 3 4 [False, True]])
     accept_all_waits
     (example_trx 10 [record_lock 3 10 3 4 [False, True],
                      record_lock 1 10 3 4 [False, False, False, False, False, True]]
        (Some (record_lock 1 10 3 4 [False, False, False, False, False, True])))
     False no_filter no_filter
   = Inr [\<lparr> wait_row_engine = ''INNODB'',
            requesting_engine_lock_id = ''10:3:4:5'',
            requesting_trx_id = 10,
            requesting_thread_id = 1,
            requesting_event_id = 1,
            requesting_identity = 1,
            blocking_engine_lock_id = ''11:3:4:5'',
            blocking_trx_id = 11,
            blocking_thread_id = 1,
            blocking_event_id = 1,
            blocking_identity = 2 \<rparr>]
   \<and> lock_rec_bitmap (record_lock 2 11 3 4 [False, False, True, False, False, True]) ! 5
   \<and> Innodb_data_lock_wait_iterator_fetch
       (example_extern [record_lock 2 11 3 4 [False, False, True, False, False, True],
                        record_lock 3 10 3 4 [False, True]])
       accept_all_waits ''10:3:4:5'' ''11:3:4:5''
       \<lparr> rw_trx_list =
           [example_trx 10 [record_lock 3 10 3 4 [False, True],
                            record_lock 1 10 3 4 [False, False, False, False, False, True]]
              (Some (record_lock 1 10 3 4 [False, False, False, False, False, True])),
            example_trx 11 [record_lock 2 11 3 4 [False, False, True, False, False, True]]
              None],
         mysql_trx_list = [] \<rparr>
     = Inr (True, [], mutexes_taken)
   \<and> Innodb_data_lock_wait_iterator_fetch
       (example_extern [record_lock 2 11 3 4 [False, False, True, False, False, True],
                        record_lock 3 10 3 4 [False, True]])
       accept_all_waits ''10:3:4:5'' ''11:3:4:2''
       \<lparr> rw_trx_list =
           [example_trx 10 [record_lock 3 10 3 4 [False, True],
                            record_lock 1 10 3 4 [False, False, False, False, False, True]]
              (Some (record_lock 1 10 3 4 [False, False, False, False, False, True])),
            example_trx 11 [record_lock 2 11 3 4 [False, False, True, False, False, True]]
              None],
         mysql_trx_list = [] \<rparr>
     = Inr (True,
         [\<lparr> wait_row_engine = ''INNODB'',
            requesting_engine_lock_id = ''10:3:4:5'',
            requesting_trx_id = 10,
            requesting_thread_id = 1,
            requesting_event_id = 1,
            requesting_identity = 1,
            blocking_engine_lock_id = ''11:3:4:5'',
            blocking_trx_id = 11,
            blocking_thread_id = 1,
            blocking_event_id = 1,
            blocking_identity = 2 \<rparr>],
         mutexes_taken)"
proof -
  let ?wl = "record_lock 1 10 3 4 [False, False, False, False, False, True]"
  let ?b = "record_lock 2 11 3 4 [False, False, True, False, False, True]"
  let ?own = "record_lock 3 10 3 4 [False, True]"
  let ?ext = "example_extern [?b, ?own]"
  let ?trx = "example_trx 10 [?own, ?wl] (Some ?wl)"
  let ?sys = "\<lparr> rw_trx_list = [?trx, example_trx 11 [?b] None], mysql_trx_list = [] \<rparr>"
  have bit: "lock_rec_bitmap ?b ! 5" by (simp add: record_lock_sel)
  have found: "fetch_trx_in_trx_list 10 True (rw_trx_list ?sys) = Some ?trx"
    by (simp add: discard_trx_def example_sel)
  have none: "Innodb_data_lock_wait_iterator_scan_trx ?ext accept_all_waits ?trx True
       \<lparr> id_record_type = LOCK_REC, id_trx_id = 10, id_table_id = 0, id_space_id = 3,
         id_page_id = 4, id_heap_id = 5 \<rparr>
       \<lparr> id_record_type = LOCK_REC, id_trx_id = 11, id_table_id = 0, id_space_id = 3,
         id_page_id = 4, id_heap_id = 5 \<rparr> = Inr []"
    by (simp add: Innodb_data_lock_wait_iterator_scan_trx_def data_lock_wait_filter_def
          example_sel example_requesting_set_bit example_blocking_set_bit example_own_set_bit
          print_lock_id_def print_record_lock_id_def snprintf_def dec_examples)
  have one: "Innodb_data_lock_wait_iterator_scan_trx ?ext accept_all_waits ?trx True
       \<lparr> id_record_type = LOCK_REC, id_trx_id = 10, id_table_id = 0, id_space_id = 3,
         id_page_id = 4, id_heap_id = 5 \<rparr>
       \<lparr> id_record_type = LOCK_REC, id_trx_id = 11, id_table_id = 0, id_space_id = 3,
         id_page_id = 4, id_heap_id = 2 \<rparr>
     = Inr [\<lparr> wait_row_engine = ''INNODB'',
            requesting_engine_lock_id = ''10:3:4:5'',
            requesting_trx_id = 10,
            requesting_thread_id = 1,
            requesting_event_id = 1,
            requesting_identity = 1,
            blocking_engine_lock_id = ''11:3:4:5'',
            blocking_trx_id = 11,
            blocking_thread_id = 1,
            blocking_event_id = 1,
            blocking_identity = 2 \<rparr>]"
    by (simp add: Innodb_data_lock_wait_iterator_scan_trx_def data_lock_wait_filter_def
          example_sel example_requesting_set_bit example_blocking_set_bit example_own_set_bit
          print_lock_id_def print_record_lock_id_def snprintf_def dec_examples
          add_lock_wait_row_def g_engine_def)
  have f1: "Innodb_data_lock_wait_iterator_fetch ?ext accept_all_waits ''10:3:4:5''
       ''11:3:4:5'' ?sys = Inr (True, [], mutexes_taken)"
    unfolding Innodb_data_lock_wait_iterator_fetch_def example_wait_lock_ids
    using found none by (simp add: example_sel mutexes_taken_def)
  have f2: "Innodb_data_lock_wait_iterator_fetch ?ext accept_all_waits ''10:3:4:5''
       ''11:3:4:2'' ?sys = Inr (True,
         [\<lparr> wait_row_engine = ''INNODB'',
            requesting_engine_lock_id = ''10:3:4:5'',
            requesting_trx_id = 10,
            requesting_thread_id = 1,
            requesting_event_id = 1,
            requesting_identity = 1,
            blocking_engine_lock_id = ''11:3:4:5'',
            blocking_trx_id = 11,
            blocking_thread_id = 1,
            blocking_event_id = 1,
            blocking_identity = 2 \<rparr>], mutexes_taken)"
    unfolding Innodb_data_lock_wait_iterator_fetch_def example_wait_lock_ids
    using found one by (simp add: example_sel mutexes_taken_def)
  from example_wait_scan bit f1 f2 show ?thesis by (intro conjI)
qed

text \<open>
  C10. In every row added, the blocking lock id is the one \<^verbatim>\<open>print_lock_id\<close> gives for
  the blocking lock and the heap number computed from the requesting lock before the
  loop: for a requesting record lock and a blocking record lock, the blocking lock's
  transaction id, space id and page number with the requesting lock's first set bit.
\<close>

theorem blocking_lock_id_heap_no:
  assumes "que_state trx = TRX_QUE_LOCK_WAIT" and "wait_lock trx = Some wl"
    and "lock_get_type wl \<noteq> LOCK_TYPE_OTHER"
    and "\<forall>curr \<in> set (lock_queue_iterator_get_prev ext wl).
           lock_get_type curr \<noteq> LOCK_TYPE_OTHER"
    and "Innodb_data_lock_wait_iterator_scan_trx ext container trx with_filter fr fb = Inr rows"
  shows "\<forall>row \<in> set rows. \<exists>curr \<in> set (lock_queue_iterator_get_prev ext wl).
           blocking_identity row = lock_ptr curr
         \<and> print_lock_id curr (wait_heap_no ext wl) (TRX_I_S_LOCK_ID_MAX_LEN ext + 1)
             = Inr (blocking_engine_lock_id row)
         \<and> (lock_get_type wl = LOCK_REC \<and> lock_get_type curr = LOCK_REC \<longrightarrow>
              blocking_engine_lock_id row =
                print_record_lock_id curr (lock_rec_find_set_bit ext wl)
                  (TRX_I_S_LOCK_ID_MAX_LEN ext + 1))"
proof
  fix row
  assume r: "row \<in> set rows"
  from scan_trx_wait_rows [OF assms(1-4), of container with_filter fr fb] assms(5)
  have "rows = map (\<lambda>curr. add_lock_wait_row
                 (lock_id_of wl (wait_heap_no ext wl) (TRX_I_S_LOCK_ID_MAX_LEN ext + 1))
                 (trx_get_id_for_print trx) wl
                 (lock_id_of curr (wait_heap_no ext wl) (TRX_I_S_LOCK_ID_MAX_LEN ext + 1)) curr)
           (filter (\<lambda>curr. requesting_accepted ext container trx with_filter fr wl
                      \<and> lock_has_to_wait ext wl curr
                      \<and> blocking_accepted ext container with_filter fb wl curr)
              (lock_queue_iterator_get_prev ext wl))"
    by simp
  with r obtain curr where c: "curr \<in> set (lock_queue_iterator_get_prev ext wl)"
    and row: "row = add_lock_wait_row
                 (lock_id_of wl (wait_heap_no ext wl) (TRX_I_S_LOCK_ID_MAX_LEN ext + 1))
                 (trx_get_id_for_print trx) wl
                 (lock_id_of curr (wait_heap_no ext wl) (TRX_I_S_LOCK_ID_MAX_LEN ext + 1)) curr"
    by auto
  from c assms(4) have known: "lock_get_type curr \<noteq> LOCK_TYPE_OTHER" by simp
  have "blocking_identity row = lock_ptr curr
         \<and> print_lock_id curr (wait_heap_no ext wl) (TRX_I_S_LOCK_ID_MAX_LEN ext + 1)
             = Inr (blocking_engine_lock_id row)
         \<and> (lock_get_type wl = LOCK_REC \<and> lock_get_type curr = LOCK_REC \<longrightarrow>
              blocking_engine_lock_id row =
                print_record_lock_id curr (lock_rec_find_set_bit ext wl)
                  (TRX_I_S_LOCK_ID_MAX_LEN ext + 1))"
    unfolding row print_lock_id_known [OF known]
    by (simp add: add_lock_wait_row_def lock_id_of_def wait_heap_no_def)
  with c show "\<exists>curr \<in> set (lock_queue_iterator_get_prev ext wl).
           blocking_identity row = lock_ptr curr
         \<and> print_lock_id curr (wait_heap_no ext wl) (TRX_I_S_LOCK_ID_MAX_LEN ext + 1)
             = Inr (blocking_engine_lock_id row)
         \<and> (lock_get_type wl = LOCK_REC \<and> lock_get_type curr = LOCK_REC \<longrightarrow>
              blocking_engine_lock_id row =
                print_record_lock_id curr (lock_rec_find_set_bit ext wl)
                  (TRX_I_S_LOCK_ID_MAX_LEN ext + 1))"
    by blast
qed

theorem blocking_lock_id_heap_no_witness:
  "lock_rec_find_set_bit (example_extern []) (record_lock 1 10 3 4 [False, False, False, False, False, True]) = 5
   \<and> lock_rec_find_set_bit (example_extern []) (record_lock 2 11 3 4 [False, False, True, False, False, True]) = 2
   \<and> (\<exists>curr \<in> set [record_lock 2 11 3 4 [False, False, True, False, False, True],
                      record_lock 3 10 3 4 [False, True]].
         lock_ptr curr = 2
       \<and> print_record_lock_id curr 5 81 = ''11:3:4:5'')"
proof -
  let ?wl = "record_lock 1 10 3 4 [False, False, False, False, False, True]"
  let ?q = "[record_lock 2 11 3 4 [False, False, True, False, False, True],
             record_lock 3 10 3 4 [False, True]]"
  let ?trx = "example_trx 10 [record_lock 3 10 3 4 [False, True], ?wl] (Some ?wl)"
  have h1: "que_state ?trx = TRX_QUE_LOCK_WAIT" by (simp add: example_sel)
  have h2: "wait_lock ?trx = Some ?wl" by (simp add: example_sel)
  have h3: "lock_get_type ?wl \<noteq> LOCK_TYPE_OTHER" by (simp add: example_sel)
  have h4: "\<forall>curr \<in> set (lock_queue_iterator_get_prev (example_extern ?q) ?wl).
             lock_get_type curr \<noteq> LOCK_TYPE_OTHER"
    by (simp add: example_sel)
  from blocking_lock_id_heap_no [OF h1 h2 h3 h4 example_wait_scan]
  show ?thesis by (simp add: example_sel example_requesting_set_bit example_blocking_set_bit)
qed

section \<open>Fetching with a malformed lock id\<close>

text \<open>
  C9. When the lock id given to \<^verbatim>\<open>Innodb_data_lock_iterator::fetch\<close> is not scanned, or
  when either lock id given to \<^verbatim>\<open>Innodb_data_lock_wait_iterator::fetch\<close> is not scanned,
  the call returns normally with no row added and no mutex entered.
\<close>

theorem fetch_malformed_lock_id:
  "(scan_lock_id ext engine_lock_id = None \<longrightarrow>
      Innodb_data_lock_iterator_fetch ext container engine_lock_id with_lock_data trx_sys
        = Inr (True, [], []))
   \<and> (scan_lock_id ext requesting_id = None \<or> scan_lock_id ext blocking_id = None \<longrightarrow>
      Innodb_data_lock_wait_iterator_fetch ext wait_container requesting_id blocking_id trx_sys
        = Inr (True, [], []))"
  by (auto simp: Innodb_data_lock_iterator_fetch_def Innodb_data_lock_wait_iterator_fetch_def
        split: option.splits)

theorem fetch_malformed_lock_id_witness:
  "Innodb_data_lock_iterator_fetch (example_extern []) accept_all ''abc'' True
     \<lparr> rw_trx_list = [example_trx 1 [table_lock 1 1 2] None], mysql_trx_list = [] \<rparr>
     = Inr (True, [], [])
   \<and> Innodb_data_lock_wait_iterator_fetch (example_extern []) accept_all_waits
       ''1:2'' ''1:2:3''
       \<lparr> rw_trx_list = [example_trx 1 [table_lock 1 1 2] None], mysql_trx_list = [] \<rparr>
     = Inr (True, [], [])"
  using fetch_malformed_lock_id
          [where ext = "example_extern []" and engine_lock_id = "''abc''"
             and container = accept_all and with_lock_data = True
             and trx_sys = "\<lparr> rw_trx_list = [example_trx 1 [table_lock 1 1 2] None],
                             mysql_trx_list = [] \<rparr>"
             and requesting_id = "''1:2''" and blocking_id = "''1:2:3''"
             and wait_container = accept_all_waits]
  by (simp add: scan_lock_id_examples)

section \<open>The scan\<close>

lemma observe_ids_Nil [simp]: "observe_ids [] s = s"
  by (simp add: observe_ids_def)

lemma observe_ids_Cons [simp]:
  "observe_ids (i # ids) s = observe_ids ids (snd (trx_id_in_range i s))"
  by (simp add: observe_ids_def)

lemma scan_trx_list_state:
  "Innodb_data_lock_iterator_scan_trx_list ext container with_lock_data read_write trx_list s
     = Inr (s', rows) \<Longrightarrow>
   s' = observe_ids (scan_ids read_write trx_list) s"
proof (induction trx_list arbitrary: s rows)
  case Nil
  then show ?case by (simp add: scan_ids_def)
next
  case (Cons trx trx_list)
  show ?case
  proof (cases "discard_trx trx read_write")
    case True
    with Cons show ?thesis by (simp add: scan_ids_def)
  next
    case False
    obtain b s1 where ir: "trx_id_in_range (trx_get_id_for_print trx) s = (b, s1)"
      by (cases "trx_id_in_range (trx_get_id_for_print trx) s")
    show ?thesis
    proof (cases b)
      case False
      with Cons \<open>\<not> discard_trx trx read_write\<close> ir show ?thesis
        by (simp add: scan_ids_def)
    next
      case True
      with Cons.prems \<open>\<not> discard_trx trx read_write\<close> ir
      obtain rest where
        "Innodb_data_lock_iterator_scan_trx_list ext container with_lock_data read_write
           trx_list s1 = Inr (s', rest)"
        by (auto split: sum.splits)
      from Cons.IH [OF this] \<open>\<not> discard_trx trx read_write\<close> ir show ?thesis
        by (simp add: scan_ids_def)
    qed
  qed
qed

lemma observe_ids_keeps:
  "get_pass (observe_ids ids s) = get_pass s"
  "m_start_trx_id_range (observe_ids ids s) = m_start_trx_id_range s"
  "m_end_trx_id_range (observe_ids ids s) = m_end_trx_id_range s"
  by (induction ids arbitrary: s) simp_all

lemma observe_ids_inv:
  "scan_range_inv M s \<Longrightarrow> \<forall>i \<in> set ids. unat i < 2 ^ 64 - 256 \<Longrightarrow>
   scan_range_inv M (observe_ids ids s)"
  by (induction ids arbitrary: s) (simp_all add: trx_id_in_range_inv)

lemma observe_ids_hint:
  "m_next_trx_id_range (observe_ids ids s) = m_next_trx_id_range s
   \<or> (m_next_trx_id_range (observe_ids ids s) \<in> set ids
      \<and> m_end_trx_id_range s \<le> m_next_trx_id_range (observe_ids ids s))"
proof (induction ids arbitrary: s)
  case Nil
  then show ?case by simp
next
  case (Cons i ids)
  let ?s1 = "snd (trx_id_in_range i s)"
  have step: "m_next_trx_id_range ?s1 = m_next_trx_id_range s
      \<or> (m_next_trx_id_range ?s1 = i \<and> m_end_trx_id_range s \<le> i)"
    by (simp add: trx_id_in_range_def)
  from Cons [of ?s1] step show ?case by auto
qed

lemma scan_while_exit:
  "\<not> (get_pass s = pass \<and> found = 0) \<Longrightarrow>
   scan_while ext container with_lock_data pass read_write trx_list (s, found, rows)
     = Some (Inr (s, found, rows))"
  by (subst scan_while.simps) auto

lemma scan_while_step:
  "get_pass s = pass \<Longrightarrow>
   Innodb_data_lock_iterator_scan_trx_list ext container with_lock_data read_write trx_list s
     = Inr (s1, new_rows) \<Longrightarrow>
   prepare_next_scan (TRX_ID_MAX ext) s1 = Inr s2 \<Longrightarrow>
   scan_while ext container with_lock_data pass read_write trx_list (s, 0, rows)
     = scan_while ext container with_lock_data pass read_write trx_list
         (s2, length new_rows, rows @ new_rows)"
  by (subst scan_while.simps) simp

lemma scan_while_fatal:
  "get_pass s = pass \<Longrightarrow>
   Innodb_data_lock_iterator_scan_trx_list ext container with_lock_data read_write trx_list s
     = Inl e \<Longrightarrow>
   scan_while ext container with_lock_data pass read_write trx_list (s, 0, rows) = Some (Inl e)"
  by (subst scan_while.simps) simp

lemma scan_while_fatal_prepare:
  "get_pass s = pass \<Longrightarrow>
   Innodb_data_lock_iterator_scan_trx_list ext container with_lock_data read_write trx_list s
     = Inr (s1, new_rows) \<Longrightarrow>
   prepare_next_scan (TRX_ID_MAX ext) s1 = Inl e \<Longrightarrow>
   scan_while ext container with_lock_data pass read_write trx_list (s, 0, rows) = Some (Inl e)"
  by (subst scan_while.simps) simp

lemma prepare_next_scan_hint_below_end:
  assumes inv: "scan_range_inv M s" and hint: "m_next_trx_id_range s \<noteq> M"
    and p: "prepare_next_scan M s = Inr s'"
  shows "m_next_trx_id_range s < m_end_trx_id_range s'" "get_pass s' = get_pass s"
    "m_next_trx_id_range s' = M"
proof -
  from prepare_next_scan_hint [OF hint] p inv hint
  have st: "unat (m_start_trx_id_range s') = unat (m_next_trx_id_range s) div 256 * 256"
    and en: "unat (m_end_trx_id_range s') = unat (m_start_trx_id_range s') + 256"
    and rest: "m_next_trx_id_range s' = M" "m_scan_pass s' = m_scan_pass s"
    by (auto simp: scan_range_inv_def)
  have "unat (m_next_trx_id_range s) < unat (m_next_trx_id_range s) div 256 * 256 + 256"
    using mod_less_divisor [of 256 "unat (m_next_trx_id_range s)"]
      div_mult_mod_eq [of "unat (m_next_trx_id_range s)" 256]
    by linarith
  then show "m_next_trx_id_range s < m_end_trx_id_range s'"
    by (simp add: word_less_nat_alt st en)
  from rest show "get_pass s' = get_pass s" "m_next_trx_id_range s' = M"
    by (simp_all add: get_pass_def)
qed

lemma prepare_next_scan_no_hint:
  assumes inv: "scan_range_inv M s" and hint: "m_next_trx_id_range s = M"
    and p: "prepare_next_scan M s = Inr s'"
  shows "get_pass s' \<noteq> get_pass s" "scan_range_inv M s'" "m_next_trx_id_range s' = M"
  using assms
  by (auto simp: prepare_next_scan_def get_pass_def scan_range_inv_def SCAN_RANGE_def
        split: scan_pass.splits)

lemma pending_less:
  assumes "n \<in> set ids" "e \<le> n" "n < e'" "e \<le> e'"
  shows "length (filter (\<lambda>i. e' \<le> i) ids) < length (filter (\<lambda>i. (e :: trx_id_t) \<le> i) ids)"
proof -
  have "filter (\<lambda>i. e' \<le> i) ids = filter (\<lambda>i. e' \<le> i) (filter (\<lambda>i. e \<le> i) ids)"
    using assms(4) by (auto simp: filter_filter intro!: filter_cong)
  moreover have "n \<in> set (filter (\<lambda>i. e \<le> i) ids)" using assms(1,2) by simp
  then have "length (filter (\<lambda>i. e' \<le> i) (filter (\<lambda>i. e \<le> i) ids))
      < length (filter (\<lambda>i. e \<le> i) ids)"
    by (rule length_filter_less) (use assms(3) in simp)
  ultimately show ?thesis by simp
qed

lemma scan_while_returns:
  assumes bound: "\<forall>i \<in> set (scan_ids read_write trx_list). unat i < 2 ^ 64 - 256"
  shows "scan_range_inv (TRX_ID_MAX ext) s \<Longrightarrow> m_next_trx_id_range s = TRX_ID_MAX ext \<Longrightarrow>
    \<exists>r. scan_while ext container with_lock_data pass read_write trx_list (s, found, rows)
           = Some r
       \<and> (\<forall>s' found' rows'. r = Inr (s', found', rows') \<longrightarrow>
             scan_range_inv (TRX_ID_MAX ext) s' \<and> m_next_trx_id_range s' = TRX_ID_MAX ext)"
proof (induction "pending s (scan_ids read_write trx_list)" arbitrary: s found rows
    rule: less_induct)
  case less
  let ?M = "TRX_ID_MAX ext"
  let ?ids = "scan_ids read_write trx_list"
  show ?case
  proof (cases "get_pass s = pass \<and> found = 0")
    case False
    from scan_while_exit [OF False] less.prems show ?thesis by simp
  next
    case True
    then have pass: "get_pass s = pass" and found: "found = 0" by simp_all
    show ?thesis
    proof (cases "Innodb_data_lock_iterator_scan_trx_list ext container with_lock_data
                    read_write trx_list s")
      case (Inl e)
      from scan_while_fatal [OF pass Inl] found show ?thesis by simp
    next
      case (Inr res)
      obtain s1 new_rows where res: "res = (s1, new_rows)" by (cases res)
      note list = Inr [unfolded res]
      have s1: "s1 = observe_ids ?ids s" by (rule scan_trx_list_state [OF list])
      have inv1: "scan_range_inv ?M s1"
        unfolding s1 by (rule observe_ids_inv [OF less.prems(1) bound])
      show ?thesis
      proof (cases "prepare_next_scan ?M s1")
        case (Inl e)
        from scan_while_fatal_prepare [OF pass list Inl] found show ?thesis by simp
      next
        case (Inr s2)
        note step = scan_while_step [OF pass list Inr, of rows]
        show ?thesis
        proof (cases "m_next_trx_id_range s1 = ?M")
          case True
          from prepare_next_scan_no_hint [OF inv1 True Inr]
          have ne: "get_pass s2 \<noteq> pass" and inv2: "scan_range_inv ?M s2"
            and n2: "m_next_trx_id_range s2 = ?M"
            using pass by (simp_all add: s1 observe_ids_keeps)
          then have "\<not> (get_pass s2 = pass \<and> length new_rows = 0)" by simp
          from scan_while_exit [OF this] step found inv2 n2 show ?thesis by simp
        next
          case False
          from prepare_next_scan_hint_below_end [OF inv1 False Inr]
          have lt: "m_next_trx_id_range s1 < m_end_trx_id_range s2"
            and same: "get_pass s2 = get_pass s1" and n2: "m_next_trx_id_range s2 = ?M"
            by simp_all
          from prepare_next_scan_same_pass [OF inv1 Inr same]
          have inv2: "scan_range_inv ?M s2"
            and le: "m_end_trx_id_range s1 \<le> m_start_trx_id_range s2"
            by simp_all
          have e1: "m_end_trx_id_range s1 = m_end_trx_id_range s"
            by (simp add: s1 observe_ids_keeps)
          from observe_ids_hint [of ?ids s] False less.prems(2)
          have mem: "m_next_trx_id_range s1 \<in> set ?ids"
            and ge: "m_end_trx_id_range s \<le> m_next_trx_id_range s1"
            by (auto simp: s1)
          have "m_start_trx_id_range s2 < m_end_trx_id_range s2"
            using inv2 by (simp add: scan_range_inv_def word_less_nat_alt)
          with le e1 have ee: "m_end_trx_id_range s \<le> m_end_trx_id_range s2" by simp
          have "pending s2 ?ids < pending s ?ids"
            unfolding pending_def by (rule pending_less [OF mem ge lt ee])
          from less.hyps [OF this inv2 n2, of "length new_rows" "rows @ new_rows"] step found
          show ?thesis by simp
        qed
      qed
    qed
  qed
qed

lemma unat_of_nat_small: "i < 2 ^ 64 \<Longrightarrow> unat (of_nat i :: 64 word) = i"
  by (simp add: unat_of_nat)

lemma filter_between_upt: "filter (\<lambda>i. a \<le> i \<and> i < b) [0..<n] = [a..<min b n]"
  by (induction n) auto

lemma filter_word_range_upt:
  assumes "n \<le> 2 ^ 64"
  shows "filter (\<lambda>i. A \<le> (of_nat i :: 64 word) \<and> (of_nat i :: 64 word) < B) [0..<n]
       = [unat A..<min (unat B) n]"
proof -
  have "filter (\<lambda>i. A \<le> (of_nat i :: 64 word) \<and> (of_nat i :: 64 word) < B) [0..<n]
      = filter (\<lambda>i. unat A \<le> i \<and> i < unat B) [0..<n]"
  proof (rule filter_cong [OF refl])
    fix i assume "i \<in> set [0..<n]"
    with assms have "i < 2 ^ 64" by simp
    then have u: "unat (of_nat i :: 64 word) = i" by (rule unat_of_nat_small)
    show "(A \<le> (of_nat i :: 64 word) \<and> (of_nat i :: 64 word) < B)
        = (unat A \<le> i \<and> i < unat B)"
      by (simp add: word_le_nat_alt word_less_nat_alt u)
  qed
  then show ?thesis by (simp add: filter_between_upt)
qed

lemma observe_ids_append:
  "observe_ids (xs @ ys) s = observe_ids ys (observe_ids xs s)"
  by (simp add: observe_ids_def)

lemma observe_ids_unchanged:
  "\<forall>i \<in> set ids. \<not> (m_end_trx_id_range s \<le> i \<and> i < m_next_trx_id_range s) \<Longrightarrow>
   observe_ids ids s = s"
  by (induction ids) (auto simp: trx_id_in_range_def)

lemma example_scan_trx:
  assumes "i < 2 ^ 64"
  shows "Innodb_data_lock_iterator_scan_trx (example_extern []) accept_all with_lock_data
           (example_trx (of_nat i) [table_lock i (of_nat i) 1] None) False no_filter
         = Inr [example_row i]"
proof -
  have u: "unat (of_nat i :: 64 word) = i" using assms by (rule unat_of_nat_small)
  have "dec (unat (1 :: 64 word)) = ''1''" by (simp add: dec.simps digit_char_def)
  then have "print_table_lock_id (table_lock i (of_nat i) 1) 81 = dec i @ '':1''"
    by (simp add: print_table_lock_id_fits table_lock_sel u del: unsigned_1)
  then show ?thesis
    by (simp add: Innodb_data_lock_iterator_scan_trx_def example_sel lock_eq_wait_lock_def
          example_row_def Let_def)
qed

lemma example_scan_trx_list:
  assumes "\<forall>i \<in> set ns. i < 2 ^ 64"
  shows "Innodb_data_lock_iterator_scan_trx_list (example_extern []) accept_all with_lock_data
           True (map (\<lambda>i. example_trx (of_nat i) [table_lock i (of_nat i) 1] None) ns) s
         = Inr (observe_ids (map of_nat ns) s,
                map example_row
                  (filter (\<lambda>i. m_start_trx_id_range s \<le> of_nat i
                              \<and> of_nat i < m_end_trx_id_range s) ns))"
  using assms
proof (induction ns arbitrary: s)
  case Nil
  then show ?case by simp
next
  case (Cons i ns)
  then have i: "i < 2 ^ 64" and rest: "\<forall>i \<in> set ns. i < 2 ^ 64" by simp_all
  let ?s1 = "snd (trx_id_in_range (of_nat i) s)"
  have fst: "fst (trx_id_in_range (of_nat i) s)
      = (m_start_trx_id_range s \<le> of_nat i \<and> of_nat i < m_end_trx_id_range s)"
    by (simp add: trx_id_in_range_def)
  from Cons.IH [OF rest, of ?s1] example_scan_trx [OF i, of with_lock_data] fst
  show ?case
    by (simp add: example_sel discard_trx_def split_beta)
qed

lemma example_population_list:
  "Innodb_data_lock_iterator_scan_trx_list (example_extern []) accept_all with_lock_data
     True example_population s
   = Inr (observe_ids (map of_nat [0..<300]) s,
          map example_row [unat (m_start_trx_id_range s)..<min (unat (m_end_trx_id_range s)) 300])"
  unfolding example_population_def
  by (subst example_scan_trx_list) (simp_all add: filter_word_range_upt)

lemma observe_ids_map_split:
  "observe_ids (map f (xs @ y # zs)) s
   = observe_ids (map f zs) (observe_ids [f y] (observe_ids (map f xs) s))"
  by (simp add: observe_ids_def)

lemma example_observe_first_range:
  "observe_ids (map of_nat [0..<300])
     \<lparr> m_scan_pass = SCANNING_RW_TRX_LIST, m_start_trx_id_range = 0,
       m_end_trx_id_range = 256, m_next_trx_id_range = - 1 \<rparr>
   = \<lparr> m_scan_pass = SCANNING_RW_TRX_LIST, m_start_trx_id_range = 0,
       m_end_trx_id_range = 256, m_next_trx_id_range = 256 \<rparr>"
proof -
  let ?s = "\<lparr> m_scan_pass = SCANNING_RW_TRX_LIST, m_start_trx_id_range = 0,
       m_end_trx_id_range = 256, m_next_trx_id_range = - 1 \<rparr>"
  let ?s' = "\<lparr> m_scan_pass = SCANNING_RW_TRX_LIST, m_start_trx_id_range = 0,
       m_end_trx_id_range = 256, m_next_trx_id_range = 256 \<rparr>"
  have split: "[0..<300] = [0..<256] @ 256 # [257..<300]"
    using upt_add_eq_append [of 0 256 44] upt_conv_Cons [of 256 300] by simp
  have small: "\<not> 256 \<le> (of_nat i :: 64 word)" if "i < 256" for i
    using that by (simp add: word_le_nat_alt unat_of_nat_small)
  have large: "\<not> (of_nat i :: 64 word) < 256" if "256 \<le> i" "i < 300" for i
    using that by (simp add: word_less_nat_alt unat_of_nat_small)
  have 1: "observe_ids (map of_nat [0..<256]) ?s = ?s"
    by (rule observe_ids_unchanged) (auto simp: small)
  have 2: "observe_ids [of_nat 256] ?s = ?s'"
    by (simp add: trx_id_in_range_def)
  have 3: "observe_ids (map of_nat [257..<300]) ?s' = ?s'"
    by (rule observe_ids_unchanged) (auto simp: large)
  have "observe_ids (map of_nat [0..<300]) ?s
      = observe_ids (map of_nat [257..<300])
          (observe_ids [of_nat 256] (observe_ids (map of_nat [0..<256]) ?s))"
    unfolding split by (rule observe_ids_map_split)
  then show ?thesis by (simp only: 1 2 3)
qed

lemma example_observe_second_range:
  "observe_ids (map of_nat [0..<300])
     \<lparr> m_scan_pass = SCANNING_RW_TRX_LIST, m_start_trx_id_range = 256,
       m_end_trx_id_range = 512, m_next_trx_id_range = - 1 \<rparr>
   = \<lparr> m_scan_pass = SCANNING_RW_TRX_LIST, m_start_trx_id_range = 256,
       m_end_trx_id_range = 512, m_next_trx_id_range = - 1 \<rparr>"
proof (rule observe_ids_unchanged)
  have small: "\<not> 512 \<le> (of_nat i :: 64 word)" if "i < 300" for i
    using that by (simp add: word_le_nat_alt unat_of_nat_small)
  show "\<forall>i\<in>set (map of_nat [0..<300]).
       \<not> (m_end_trx_id_range \<lparr> m_scan_pass = SCANNING_RW_TRX_LIST, m_start_trx_id_range = 256,
       m_end_trx_id_range = 512, m_next_trx_id_range = - 1 \<rparr> \<le> i \<and>
          i < m_next_trx_id_range \<lparr> m_scan_pass = SCANNING_RW_TRX_LIST, m_start_trx_id_range = 256,
       m_end_trx_id_range = 512, m_next_trx_id_range = - 1 \<rparr>)"
    by (auto simp: small)
qed

lemma example_call_1:
  "Innodb_data_lock_iterator_scan (example_extern []) accept_all with_lock_data
     \<lparr> rw_trx_list = example_population, mysql_trx_list = [] \<rparr>
     (Innodb_trx_scan_state (- 1))
   = Some (Inr (False,
        \<lparr> m_scan_pass = SCANNING_RW_TRX_LIST, m_start_trx_id_range = 256,
          m_end_trx_id_range = 512, m_next_trx_id_range = - 1 \<rparr>,
        map example_row [0..<256], mutexes_taken))"
proof -
  let ?s = "\<lparr> m_scan_pass = SCANNING_RW_TRX_LIST, m_start_trx_id_range = 0,
       m_end_trx_id_range = 256, m_next_trx_id_range = - 1 \<rparr>"
  let ?s1 = "\<lparr> m_scan_pass = SCANNING_RW_TRX_LIST, m_start_trx_id_range = 0,
       m_end_trx_id_range = 256, m_next_trx_id_range = 256 \<rparr>"
  let ?s2 = "\<lparr> m_scan_pass = SCANNING_RW_TRX_LIST, m_start_trx_id_range = 256,
          m_end_trx_id_range = 512, m_next_trx_id_range = - 1 \<rparr>"
  have p0: "prepare_next_scan (- 1) (Innodb_trx_scan_state (- 1)) = Inr ?s"
    by (simp add: prepare_next_scan_def Innodb_trx_scan_state_def SCAN_RANGE_def)
  have l: "Innodb_data_lock_iterator_scan_trx_list (example_extern []) accept_all with_lock_data
     True example_population ?s = Inr (?s1, map example_row [0..<256])"
    by (simp add: example_population_list example_observe_first_range)
  have p1: "prepare_next_scan (TRX_ID_MAX (example_extern [])) ?s1 = Inr ?s2"
    by (simp add: prepare_next_scan_def SCAN_RANGE_def example_sel)
  have w1: "scan_while (example_extern []) accept_all with_lock_data SCANNING_RW_TRX_LIST True
      example_population (?s, 0, []) = Some (Inr (?s2, 256, map example_row [0..<256]))"
    by (subst scan_while_step [OF _ l p1]) (simp_all add: get_pass_def scan_while_exit)
  have w2: "scan_while (example_extern []) accept_all with_lock_data SCANNING_MYSQL_TRX_LIST False
      [] (?s2, 256, map example_row [0..<256]) = Some (Inr (?s2, 256, map example_row [0..<256]))"
    by (rule scan_while_exit) simp
  show ?thesis
    by (simp add: Innodb_data_lock_iterator_scan_def scan_locked_def example_sel p0 w1 w2
          mutexes_taken_def)
       (simp add: get_pass_def Innodb_trx_scan_state_def)
qed

lemma example_call_2:
  "Innodb_data_lock_iterator_scan (example_extern []) accept_all with_lock_data
     \<lparr> rw_trx_list = example_population, mysql_trx_list = [] \<rparr>
     \<lparr> m_scan_pass = SCANNING_RW_TRX_LIST, m_start_trx_id_range = 256,
       m_end_trx_id_range = 512, m_next_trx_id_range = - 1 \<rparr>
   = Some (Inr (False,
        \<lparr> m_scan_pass = SCANNING_MYSQL_TRX_LIST, m_start_trx_id_range = 0,
          m_end_trx_id_range = 256, m_next_trx_id_range = - 1 \<rparr>,
        map example_row [256..<300], mutexes_taken))"
proof -
  let ?s = "\<lparr> m_scan_pass = SCANNING_RW_TRX_LIST, m_start_trx_id_range = 256,
       m_end_trx_id_range = 512, m_next_trx_id_range = - 1 \<rparr>"
  let ?s2 = "\<lparr> m_scan_pass = SCANNING_MYSQL_TRX_LIST, m_start_trx_id_range = 0,
          m_end_trx_id_range = 256, m_next_trx_id_range = - 1 \<rparr>"
  have l: "Innodb_data_lock_iterator_scan_trx_list (example_extern []) accept_all with_lock_data
     True example_population ?s = Inr (?s, map example_row [256..<300])"
    by (simp add: example_population_list example_observe_second_range del: upt_rec_numeral)
  have p1: "prepare_next_scan (TRX_ID_MAX (example_extern [])) ?s = Inr ?s2"
    by (simp add: prepare_next_scan_def SCAN_RANGE_def example_sel)
  have w1: "scan_while (example_extern []) accept_all with_lock_data SCANNING_RW_TRX_LIST True
      example_population (?s, 0, []) = Some (Inr (?s2, 44, map example_row [256..<300]))"
    by (subst scan_while_step [OF _ l p1])
       (simp_all add: get_pass_def scan_while_exit del: upt_rec_numeral)
  have w2: "scan_while (example_extern []) accept_all with_lock_data SCANNING_MYSQL_TRX_LIST False
      [] (?s2, 44, map example_row [256..<300]) = Some (Inr (?s2, 44, map example_row [256..<300]))"
    by (rule scan_while_exit) simp
  show ?thesis
    by (simp add: Innodb_data_lock_iterator_scan_def scan_locked_def w1 w2 mutexes_taken_def
          get_pass_def del: upt_rec_numeral)
qed

lemma example_call_3:
  "Innodb_data_lock_iterator_scan (example_extern []) accept_all with_lock_data
     \<lparr> rw_trx_list = example_population, mysql_trx_list = [] \<rparr>
     \<lparr> m_scan_pass = SCANNING_MYSQL_TRX_LIST, m_start_trx_id_range = 0,
       m_end_trx_id_range = 256, m_next_trx_id_range = - 1 \<rparr>
   = Some (Inr (False,
        \<lparr> m_scan_pass = DONE_SCANNING, m_start_trx_id_range = 0,
          m_end_trx_id_range = 256, m_next_trx_id_range = - 1 \<rparr>,
        [], mutexes_taken))"
proof -
  let ?s = "\<lparr> m_scan_pass = SCANNING_MYSQL_TRX_LIST, m_start_trx_id_range = 0,
       m_end_trx_id_range = 256, m_next_trx_id_range = - 1 \<rparr>"
  let ?s2 = "\<lparr> m_scan_pass = DONE_SCANNING, m_start_trx_id_range = 0,
          m_end_trx_id_range = 256, m_next_trx_id_range = - 1 \<rparr>"
  have w1: "scan_while (example_extern []) accept_all with_lock_data SCANNING_RW_TRX_LIST True
      example_population (?s, 0, []) = Some (Inr (?s, 0, []))"
    by (rule scan_while_exit) (simp add: get_pass_def)
  have l: "Innodb_data_lock_iterator_scan_trx_list (example_extern []) accept_all with_lock_data
     False [] ?s = Inr (?s, [])"
    by simp
  have p1: "prepare_next_scan (TRX_ID_MAX (example_extern [])) ?s = Inr ?s2"
    by (simp add: prepare_next_scan_def example_sel)
  have w2: "scan_while (example_extern []) accept_all with_lock_data SCANNING_MYSQL_TRX_LIST False
      [] (?s, 0, []) = Some (Inr (?s2, 0, []))"
    by (subst scan_while_step [OF _ l p1]) (simp_all add: get_pass_def scan_while_exit)
  show ?thesis
    by (simp add: Innodb_data_lock_iterator_scan_def scan_locked_def w1 w2 mutexes_taken_def
          get_pass_def del: upt_rec_numeral)
qed

lemma example_call_4:
  "Innodb_data_lock_iterator_scan (example_extern []) accept_all with_lock_data
     \<lparr> rw_trx_list = example_population, mysql_trx_list = [] \<rparr>
     \<lparr> m_scan_pass = DONE_SCANNING, m_start_trx_id_range = 0,
       m_end_trx_id_range = 256, m_next_trx_id_range = - 1 \<rparr>
   = Some (Inr (True,
        \<lparr> m_scan_pass = DONE_SCANNING, m_start_trx_id_range = 0,
          m_end_trx_id_range = 256, m_next_trx_id_range = - 1 \<rparr>,
        [], []))"
  by (simp add: Innodb_data_lock_iterator_scan_def scan_locked_def get_pass_def)

lemma scan_locked_returns:
  assumes inv: "scan_range_inv (TRX_ID_MAX ext) s"
    and hint: "m_next_trx_id_range s = TRX_ID_MAX ext"
    and rw: "\<forall>i \<in> set (scan_ids True (rw_trx_list trx_sys)). unat i < 2 ^ 64 - 256"
    and my: "\<forall>i \<in> set (scan_ids False (mysql_trx_list trx_sys)). unat i < 2 ^ 64 - 256"
  shows "\<exists>r. scan_locked ext container with_lock_data trx_sys s = Some r
     \<and> (\<forall>ret s' rows trace. r = Inr (ret, s', rows, trace) \<longrightarrow>
          (ret \<longleftrightarrow> get_pass s = DONE_SCANNING)
        \<and> (ret \<longrightarrow> s' = s \<and> rows = [] \<and> trace = [])
        \<and> scan_range_inv (TRX_ID_MAX ext) s' \<and> m_next_trx_id_range s' = TRX_ID_MAX ext)"
proof (cases "get_pass s = DONE_SCANNING")
  case True
  with inv hint show ?thesis by (simp add: scan_locked_def)
next
  case False
  from scan_while_returns [OF rw inv hint, of container with_lock_data SCANNING_RW_TRX_LIST 0 "[]"]
  obtain r1 where r1: "scan_while ext container with_lock_data SCANNING_RW_TRX_LIST True
       (rw_trx_list trx_sys) (s, 0, []) = Some r1"
    and post1: "\<forall>s' found' rows'. r1 = Inr (s', found', rows') \<longrightarrow>
             scan_range_inv (TRX_ID_MAX ext) s' \<and> m_next_trx_id_range s' = TRX_ID_MAX ext"
    by blast
  show ?thesis
  proof (cases r1)
    case (Inl e)
    with r1 False show ?thesis by (simp add: scan_locked_def)
  next
    case (Inr st1)
    obtain s1 found1 rows1 where st1: "st1 = (s1, found1, rows1)" by (cases st1)
    from post1 Inr st1 have inv1: "scan_range_inv (TRX_ID_MAX ext) s1"
      and hint1: "m_next_trx_id_range s1 = TRX_ID_MAX ext" by simp_all
    from scan_while_returns [OF my inv1 hint1, of container with_lock_data
        SCANNING_MYSQL_TRX_LIST found1 rows1]
    obtain r2 where r2: "scan_while ext container with_lock_data SCANNING_MYSQL_TRX_LIST False
       (mysql_trx_list trx_sys) (s1, found1, rows1) = Some r2"
      and post2: "\<forall>s' found' rows'. r2 = Inr (s', found', rows') \<longrightarrow>
             scan_range_inv (TRX_ID_MAX ext) s' \<and> m_next_trx_id_range s' = TRX_ID_MAX ext"
      by blast
    show ?thesis
    proof (cases r2)
      case (Inl e)
      with r1 r2 Inr st1 False show ?thesis by (simp add: scan_locked_def)
    next
      case (Inr st2)
      obtain s2 found2 rows2 where st2: "st2 = (s2, found2, rows2)" by (cases st2)
      from post2 Inr st2 have "scan_range_inv (TRX_ID_MAX ext) s2"
        "m_next_trx_id_range s2 = TRX_ID_MAX ext" by simp_all
      with r1 r2 \<open>r1 = Inr st1\<close> st1 Inr st2 False show ?thesis
        by (simp add: scan_locked_def)
    qed
  qed
qed

lemma scan_returns:
  assumes inv: "scan_range_inv (TRX_ID_MAX ext) s"
    and hint: "m_next_trx_id_range s = TRX_ID_MAX ext"
    and rw: "\<forall>i \<in> set (scan_ids True (rw_trx_list trx_sys)). unat i < 2 ^ 64 - 256"
    and my: "\<forall>i \<in> set (scan_ids False (mysql_trx_list trx_sys)). unat i < 2 ^ 64 - 256"
  shows "\<exists>r. Innodb_data_lock_iterator_scan ext container with_lock_data trx_sys s = Some r
     \<and> (\<forall>ret s' rows trace. r = Inr (ret, s', rows, trace) \<longrightarrow>
          (ret \<longleftrightarrow> get_pass s = DONE_SCANNING
                 \<or> (get_pass s = INIT_SCANNING \<and> \<not> accept_engine container g_engine))
        \<and> (ret \<longrightarrow> s' = s \<and> rows = [] \<and> trace = [])
        \<and> scan_range_inv (TRX_ID_MAX ext) s' \<and> m_next_trx_id_range s' = TRX_ID_MAX ext)"
proof (cases "get_pass s = INIT_SCANNING")
  case False
  with scan_locked_returns [OF inv hint rw my, of container with_lock_data]
  show ?thesis by (simp add: Innodb_data_lock_iterator_scan_def)
next
  case True
  show ?thesis
  proof (cases "accept_engine container g_engine")
    case False
    with True inv hint show ?thesis by (simp add: Innodb_data_lock_iterator_scan_def)
  next
    case acc: True
    let ?s1 = "\<lparr> m_scan_pass = SCANNING_RW_TRX_LIST, m_start_trx_id_range = 0,
                m_end_trx_id_range = 256, m_next_trx_id_range = TRX_ID_MAX ext \<rparr>"
    have p: "prepare_next_scan (TRX_ID_MAX ext) s = Inr ?s1"
      using True hint by (simp add: prepare_next_scan_def get_pass_def SCAN_RANGE_def)
    have inv1: "scan_range_inv (TRX_ID_MAX ext) ?s1" by (simp add: scan_range_inv_def)
    have hint1: "m_next_trx_id_range ?s1 = TRX_ID_MAX ext" by simp
    have np: "get_pass ?s1 \<noteq> DONE_SCANNING" by (simp add: get_pass_def)
    from scan_locked_returns [OF inv1 hint1 rw my, of container with_lock_data]
    obtain r where r: "scan_locked ext container with_lock_data trx_sys ?s1 = Some r"
      and post: "\<forall>ret s' rows trace. r = Inr (ret, s', rows, trace) \<longrightarrow>
          (ret \<longleftrightarrow> get_pass ?s1 = DONE_SCANNING)
        \<and> (ret \<longrightarrow> s' = ?s1 \<and> rows = [] \<and> trace = [])
        \<and> scan_range_inv (TRX_ID_MAX ext) s' \<and> m_next_trx_id_range s' = TRX_ID_MAX ext"
      by blast
    from post np have post': "\<forall>ret s' rows trace. r = Inr (ret, s', rows, trace) \<longrightarrow>
          \<not> ret \<and> scan_range_inv (TRX_ID_MAX ext) s' \<and> m_next_trx_id_range s' = TRX_ID_MAX ext"
      by blast
    from True acc p r post' show ?thesis
      by (auto simp: Innodb_data_lock_iterator_scan_def)
  qed
qed

lemma example_population_ids:
  "\<forall>i \<in> set (scan_ids True example_population). unat i < 2 ^ 64 - 256"
proof -
  have "scan_ids True example_population = map of_nat [0..<300]"
    by (simp add: scan_ids_def example_population_def discard_trx_def example_sel comp_def)
  moreover have "unat (of_nat i :: 64 word) < 2 ^ 64 - 256" if "i < 300" for i
    using that by (simp add: unat_of_nat_small)
  ultimately show ?thesis by auto
qed

text \<open>
  C8, as the code has it. A call of \<^verbatim>\<open>scan\<close> on a well-formed scan state with no hint
  pending, over lists whose identifiers are below \<open>2 ^ 64 - 256\<close>, returns (or aborts in
  \<^verbatim>\<open>ut_error\<close>); it returns \<^verbatim>\<open>true\<close> exactly when the pass was already done when it was
  called, or was the initial pass and the container rejected the engine, and then it adds
  no row, enters no mutex and leaves the state as it was; every other call returns
  \<^verbatim>\<open>false\<close>, the call that reaches the done pass included; and the state it leaves is
  again well formed with no hint pending. In the example, with the 300 transactions in
  the RW list and an empty MySQL list, the first call adds the rows of the ids 0 to 255
  and returns \<^verbatim>\<open>false\<close>, the second adds the rows of the ids 256 to 299 and returns
  \<^verbatim>\<open>false\<close>, the third adds no row, reaches the done pass and returns \<^verbatim>\<open>false\<close>, and the
  fourth returns \<^verbatim>\<open>true\<close> with no row and no mutex entered, leaving the state unchanged.
\<close>

theorem scan_return_value:
  assumes "scan_range_inv (TRX_ID_MAX ext) s"
    and "m_next_trx_id_range s = TRX_ID_MAX ext"
    and "\<forall>i \<in> set (scan_ids True (rw_trx_list trx_sys)). unat i < 2 ^ 64 - 256"
    and "\<forall>i \<in> set (scan_ids False (mysql_trx_list trx_sys)). unat i < 2 ^ 64 - 256"
  shows
    "(\<exists>r. Innodb_data_lock_iterator_scan ext container with_lock_data trx_sys s = Some r
        \<and> (\<forall>ret s' rows trace. r = Inr (ret, s', rows, trace) \<longrightarrow>
             (ret \<longleftrightarrow> get_pass s = DONE_SCANNING
                    \<or> (get_pass s = INIT_SCANNING \<and> \<not> accept_engine container g_engine))
           \<and> (ret \<longrightarrow> s' = s \<and> rows = [] \<and> trace = [])
           \<and> scan_range_inv (TRX_ID_MAX ext) s'
           \<and> m_next_trx_id_range s' = TRX_ID_MAX ext))
     \<and> Innodb_data_lock_iterator_scan (example_extern []) accept_all False
         \<lparr> rw_trx_list = example_population, mysql_trx_list = [] \<rparr>
         (Innodb_trx_scan_state (- 1))
       = Some (Inr (False,
           \<lparr> m_scan_pass = SCANNING_RW_TRX_LIST, m_start_trx_id_range = 256,
             m_end_trx_id_range = 512, m_next_trx_id_range = - 1 \<rparr>,
           map example_row [0..<256], mutexes_taken))
     \<and> Innodb_data_lock_iterator_scan (example_extern []) accept_all False
         \<lparr> rw_trx_list = example_population, mysql_trx_list = [] \<rparr>
         \<lparr> m_scan_pass = SCANNING_RW_TRX_LIST, m_start_trx_id_range = 256,
           m_end_trx_id_range = 512, m_next_trx_id_range = - 1 \<rparr>
       = Some (Inr (False,
           \<lparr> m_scan_pass = SCANNING_MYSQL_TRX_LIST, m_start_trx_id_range = 0,
             m_end_trx_id_range = 256, m_next_trx_id_range = - 1 \<rparr>,
           map example_row [256..<300], mutexes_taken))
     \<and> Innodb_data_lock_iterator_scan (example_extern []) accept_all False
         \<lparr> rw_trx_list = example_population, mysql_trx_list = [] \<rparr>
         \<lparr> m_scan_pass = SCANNING_MYSQL_TRX_LIST, m_start_trx_id_range = 0,
           m_end_trx_id_range = 256, m_next_trx_id_range = - 1 \<rparr>
       = Some (Inr (False,
           \<lparr> m_scan_pass = DONE_SCANNING, m_start_trx_id_range = 0,
             m_end_trx_id_range = 256, m_next_trx_id_range = - 1 \<rparr>,
           [], mutexes_taken))
     \<and> Innodb_data_lock_iterator_scan (example_extern []) accept_all False
         \<lparr> rw_trx_list = example_population, mysql_trx_list = [] \<rparr>
         \<lparr> m_scan_pass = DONE_SCANNING, m_start_trx_id_range = 0,
           m_end_trx_id_range = 256, m_next_trx_id_range = - 1 \<rparr>
       = Some (Inr (True,
           \<lparr> m_scan_pass = DONE_SCANNING, m_start_trx_id_range = 0,
             m_end_trx_id_range = 256, m_next_trx_id_range = - 1 \<rparr>,
           [], []))"
  by (intro conjI scan_returns [OF assms] example_call_1 example_call_2 example_call_3
        example_call_4)

theorem scan_return_value_witness:
  "scan_range_inv (- 1) (Innodb_trx_scan_state (- 1))
   \<and> (\<exists>r. Innodb_data_lock_iterator_scan (example_extern []) accept_all False
            \<lparr> rw_trx_list = example_population, mysql_trx_list = [] \<rparr>
            (Innodb_trx_scan_state (- 1)) = Some r)"
proof -
  let ?sys = "\<lparr> rw_trx_list = example_population, mysql_trx_list = [] \<rparr>"
  have h1: "scan_range_inv (TRX_ID_MAX (example_extern [])) (Innodb_trx_scan_state (- 1))"
    by (simp add: scan_range_inv_def Innodb_trx_scan_state_def SCAN_RANGE_def example_sel)
  have h2: "m_next_trx_id_range (Innodb_trx_scan_state (- 1)) = TRX_ID_MAX (example_extern [])"
    by (simp add: Innodb_trx_scan_state_def example_sel)
  have h3: "\<forall>i \<in> set (scan_ids True (rw_trx_list ?sys)). unat i < 2 ^ 64 - 256"
    using example_population_ids by simp
  have h4: "\<forall>i \<in> set (scan_ids False (mysql_trx_list ?sys)). unat i < 2 ^ 64 - 256"
    by (simp add: scan_ids_def)
  from scan_return_value [OF h1 h2 h3 h4, of accept_all False]
  have "\<exists>r. Innodb_data_lock_iterator_scan (example_extern []) accept_all False ?sys
              (Innodb_trx_scan_state (- 1)) = Some r"
    by blast
  moreover from h1 have "scan_range_inv (- 1) (Innodb_trx_scan_state (- 1))"
    by (simp add: example_sel)
  ultimately show ?thesis by (rule conjI [rotated])
qed

text \<open>
  C8 as stated fails at the third call of its own example. After the first two calls the
  state is in the MySQL pass; the third call adds no row, moves the state to the done
  pass and returns \<^verbatim>\<open>false\<close>: the pass is done when the call returns and the call has
  not returned done.
\<close>

theorem scan_third_call_counterexample:
  "Innodb_data_lock_iterator_scan (example_extern []) accept_all False
     \<lparr> rw_trx_list = example_population, mysql_trx_list = [] \<rparr>
     (Innodb_trx_scan_state (- 1))
   = Some (Inr (False,
       \<lparr> m_scan_pass = SCANNING_RW_TRX_LIST, m_start_trx_id_range = 256,
         m_end_trx_id_range = 512, m_next_trx_id_range = - 1 \<rparr>,
       map example_row [0..<256], mutexes_taken))
   \<and> Innodb_data_lock_iterator_scan (example_extern []) accept_all False
       \<lparr> rw_trx_list = example_population, mysql_trx_list = [] \<rparr>
       \<lparr> m_scan_pass = SCANNING_RW_TRX_LIST, m_start_trx_id_range = 256,
         m_end_trx_id_range = 512, m_next_trx_id_range = - 1 \<rparr>
     = Some (Inr (False,
         \<lparr> m_scan_pass = SCANNING_MYSQL_TRX_LIST, m_start_trx_id_range = 0,
           m_end_trx_id_range = 256, m_next_trx_id_range = - 1 \<rparr>,
         map example_row [256..<300], mutexes_taken))
   \<and> Innodb_data_lock_iterator_scan (example_extern []) accept_all False
       \<lparr> rw_trx_list = example_population, mysql_trx_list = [] \<rparr>
       \<lparr> m_scan_pass = SCANNING_MYSQL_TRX_LIST, m_start_trx_id_range = 0,
         m_end_trx_id_range = 256, m_next_trx_id_range = - 1 \<rparr>
     = Some (Inr (False,
         \<lparr> m_scan_pass = DONE_SCANNING, m_start_trx_id_range = 0,
           m_end_trx_id_range = 256, m_next_trx_id_range = - 1 \<rparr>,
         [], mutexes_taken))"
  by (intro conjI example_call_1 example_call_2 example_call_3)

end
